theory Spec2Isabelle
  imports Complex_Main "HOL-Library.Multiset" "HOL-Library.Sublist"
begin

section \<open>JavaScript numbers\<close>

text \<open>
  The annotation pipeline of \<^verbatim>\<open>src/services/pdfService.js\<close> computes with JavaScript
  numbers. A number is modelled as a real, the two infinities or NaN. Finite arithmetic is
  exact: rounding to binary64, overflow to an infinity and the sign of zero are left out.
  Everything that decides control flow in the source (NaN from a failed parse, a missing
  array element, the falsy values of \<^verbatim>\<open>||\<close>) is kept.
\<close>

datatype jsnum = Fin real | PInf | NInf | NaN

fun jneg :: "jsnum \<Rightarrow> jsnum" where
  "jneg (Fin a) = Fin (- a)"
| "jneg PInf = NInf"
| "jneg NInf = PInf"
| "jneg NaN = NaN"

instantiation jsnum :: "{plus, minus, times}"
begin

fun plus_jsnum :: "jsnum \<Rightarrow> jsnum \<Rightarrow> jsnum" where
  "plus_jsnum (Fin a) (Fin b) = Fin (a + b)"
| "plus_jsnum NaN _ = NaN"
| "plus_jsnum _ NaN = NaN"
| "plus_jsnum PInf NInf = NaN"
| "plus_jsnum NInf PInf = NaN"
| "plus_jsnum PInf _ = PInf"
| "plus_jsnum _ PInf = PInf"
| "plus_jsnum NInf _ = NInf"
| "plus_jsnum _ NInf = NInf"

definition minus_jsnum :: "jsnum \<Rightarrow> jsnum \<Rightarrow> jsnum" where
  "minus_jsnum a b = a + jneg b"

fun times_jsnum :: "jsnum \<Rightarrow> jsnum \<Rightarrow> jsnum" where
  "times_jsnum (Fin a) (Fin b) = Fin (a * b)"
| "times_jsnum NaN _ = NaN"
| "times_jsnum _ NaN = NaN"
| "times_jsnum (Fin a) PInf = (if a = 0 then NaN else if 0 < a then PInf else NInf)"
| "times_jsnum (Fin a) NInf = (if a = 0 then NaN else if 0 < a then NInf else PInf)"
| "times_jsnum PInf (Fin b) = (if b = 0 then NaN else if 0 < b then PInf else NInf)"
| "times_jsnum NInf (Fin b) = (if b = 0 then NaN else if 0 < b then NInf else PInf)"
| "times_jsnum PInf PInf = PInf"
| "times_jsnum NInf NInf = PInf"
| "times_jsnum PInf NInf = NInf"
| "times_jsnum NInf PInf = NInf"

instance ..

end

text \<open>Division, with a zero divisor read as \<open>+0\<close>.\<close>

fun jdiv :: "jsnum \<Rightarrow> jsnum \<Rightarrow> jsnum" where
  "jdiv (Fin a) (Fin b) =
     (if b = 0 then (if a = 0 then NaN else if 0 < a then PInf else NInf) else Fin (a / b))"
| "jdiv NaN _ = NaN"
| "jdiv _ NaN = NaN"
| "jdiv (Fin a) _ = Fin 0"
| "jdiv PInf (Fin b) = (if 0 \<le> b then PInf else NInf)"
| "jdiv NInf (Fin b) = (if 0 \<le> b then NInf else PInf)"
| "jdiv PInf PInf = NaN"
| "jdiv PInf NInf = NaN"
| "jdiv NInf PInf = NaN"
| "jdiv NInf NInf = NaN"

text \<open>The comparisons \<^verbatim>\<open><\<close> and \<^verbatim>\<open><=\<close>: false as soon as one side is NaN.\<close>

fun jlt :: "jsnum \<Rightarrow> jsnum \<Rightarrow> bool" where
  "jlt (Fin a) (Fin b) = (a < b)"
| "jlt NaN _ = False"
| "jlt _ NaN = False"
| "jlt _ NInf = False"
| "jlt PInf _ = False"
| "jlt NInf _ = True"
| "jlt _ PInf = True"

fun jle :: "jsnum \<Rightarrow> jsnum \<Rightarrow> bool" where
  "jle NaN _ = False"
| "jle _ NaN = False"
| "jle a b = (a = b \<or> jlt a b)"

text \<open>\<^verbatim>\<open>Math.min\<close> and \<^verbatim>\<open>Math.max\<close> of two arguments: NaN when either one is.\<close>

fun Math_min :: "jsnum \<Rightarrow> jsnum \<Rightarrow> jsnum" where
  "Math_min NaN _ = NaN"
| "Math_min _ NaN = NaN"
| "Math_min a b = (if jlt b a then b else a)"

fun Math_max :: "jsnum \<Rightarrow> jsnum \<Rightarrow> jsnum" where
  "Math_max NaN _ = NaN"
| "Math_max _ NaN = NaN"
| "Math_max a b = (if jlt a b then b else a)"

text \<open>Truthiness of a number, and \<^verbatim>\<open>v || d\<close> on a field that may be absent.\<close>

fun truthy :: "jsnum \<Rightarrow> bool" where
  "truthy (Fin a) = (a \<noteq> 0)"
| "truthy NaN = False"
| "truthy _ = True"

fun orElse :: "jsnum option \<Rightarrow> jsnum \<Rightarrow> jsnum" where
  "orElse None d = d"
| "orElse (Some v) d = (if truthy v then v else d)"

fun orElseS :: "string option \<Rightarrow> string \<Rightarrow> string" where
  "orElseS None d = d"
| "orElseS (Some s) d = (if s = [] then d else s)"

section \<open>Strings\<close>

text \<open>
  A string is a list of 8-bit code units. White space is what \<^verbatim>\<open>trim\<close>, \<^verbatim>\<open>\s\<close>,
  \<^verbatim>\<open>parseInt\<close> and \<^verbatim>\<open>parseFloat\<close> skip, in that range: tab, line feed, vertical
  tab, form feed, carriage return, space and the no-break space.
\<close>

definition code :: "char \<Rightarrow> nat" where
  "code c = of_char c"

definition is_space :: "char \<Rightarrow> bool" where
  "is_space c = (code c \<in> {9, 10, 11, 12, 13, 32, 160})"

definition startsWith :: "string \<Rightarrow> string \<Rightarrow> bool" where
  "startsWith s p = (take (length p) s = p)"

text \<open>\<^verbatim>\<open>s.slice(i, j)\<close> for \<open>0 \<le> i \<le> j\<close>.\<close>

definition slice :: "string \<Rightarrow> nat \<Rightarrow> nat \<Rightarrow> string" where
  "slice s i j = take (j - i) (drop i s)"

text \<open>The value of a character as a digit: \<open>0-9\<close>, then \<open>a-z\<close> or \<open>A-Z\<close> for 10 to 35.\<close>

definition digitVal :: "char \<Rightarrow> nat option" where
  "digitVal c =
     (let n = code c in
      if 48 \<le> n \<and> n \<le> 57 then Some (n - 48)
      else if 97 \<le> n \<and> n \<le> 122 then Some (n - 87)
      else if 65 \<le> n \<and> n \<le> 90 then Some (n - 55)
      else None)"

definition is_digit_in :: "nat \<Rightarrow> char \<Rightarrow> bool" where
  "is_digit_in R c = (case digitVal c of None \<Rightarrow> False | Some d \<Rightarrow> d < R)"

definition digitsVal :: "nat \<Rightarrow> string \<Rightarrow> nat" where
  "digitsVal R Z = foldl (\<lambda>acc c. acc * R + (case digitVal c of None \<Rightarrow> 0 | Some d \<Rightarrow> d)) 0 Z"

text \<open>
  \<^verbatim>\<open>parseInt(string, radix)\<close>, radix 0 standing for an absent radix: leading white space
  and a sign are skipped, a \<^verbatim>\<open>0x\<close> prefix selects radix 16 when the radix is absent or 16,
  and the longest run of digits of the radix is the value; NaN when that run is empty.
\<close>

definition parseInt :: "string \<Rightarrow> nat \<Rightarrow> jsnum" where
  "parseInt string radix =
     (let S = dropWhile is_space string;
          sign = (if startsWith S ''-'' then - 1 else 1 :: real);
          S = (if startsWith S ''+'' \<or> startsWith S ''-'' then drop 1 S else S)
      in if radix \<noteq> 0 \<and> (radix < 2 \<or> 36 < radix) then NaN
         else
           let stripPrefix = (radix = 0 \<or> radix = 16);
               R = (if radix = 0 then 10 else radix);
               hasPrefix = (stripPrefix \<and> (startsWith S ''0x'' \<or> startsWith S ''0X''));
               S = (if hasPrefix then drop 2 S else S);
               R = (if hasPrefix then 16 else R);
               Z = takeWhile (is_digit_in R) S
           in if Z = [] then NaN else Fin (sign * real (digitsVal R Z)))"

section \<open>Color Codec: \<^verbatim>\<open>parseColor\<close>\<close>

datatype color = Color (color_r: jsnum) (color_g: jsnum) (color_b: jsnum)

definition parseColor :: "string \<Rightarrow> color" where
  "parseColor colorString =
     (if startsWith colorString ''#'' then
        let hex = drop 1 colorString in
        Color (jdiv (parseInt (slice hex 0 2) 16) (Fin 255))
              (jdiv (parseInt (slice hex 2 4) 16) (Fin 255))
              (jdiv (parseInt (slice hex 4 6) 16) (Fin 255))
      else Color (Fin 0) (Fin 0) (Fin 0))"

section \<open>Annotation objects\<close>

text \<open>
  An annotation object of the wire format: one record for the three kinds, told apart by
  \<open>o_type\<close>, every field optional (\<open>None\<close> is an absent field). \<open>o_left d\<close> is the
  source's \<^verbatim>\<open>d.left\<close>. The path encoding \<open>o_path\<close> is a JSON value.
\<close>

datatype jsval =
    JUndef | JNull | JBool bool | JNum jsnum | JStr string
  | JArr "jsval list" | JObj "(string \<times> jsval) list"

record objData =
  o_type :: "string option"
  o_text :: "string option"
  o_left :: "jsnum option"
  o_top :: "jsnum option"
  o_fontSize :: "jsnum option"
  o_manualScaleX :: "jsnum option"
  o_manualScaleY :: "jsnum option"
  o_scaleX :: "jsnum option"
  o_scaleY :: "jsnum option"
  o_width :: "jsnum option"
  o_height :: "jsnum option"
  o_fill :: "string option"
  o_stroke :: "string option"
  o_strokeWidth :: "jsnum option"
  o_path :: jsval
  o_src :: "string option"

section \<open>Text: the font size of \<^verbatim>\<open>addTextToPage\<close>\<close>

definition actualFontSize :: "objData \<Rightarrow> jsnum" where
  "actualFontSize textData =
     (let baseFontSize = orElse (o_fontSize textData) (Fin 20);
          scaleX = orElse (o_manualScaleX textData) (orElse (o_scaleX textData) (Fin 1));
          scaleY = orElse (o_manualScaleY textData) (orElse (o_scaleY textData) (Fin 1));
          averageScale = jdiv (scaleX + scaleY) (Fin 2);
          actualFontSize = baseFontSize * averageScale;
          minFontSize = Fin 6;
          maxFontSize = Fin 72
      in Math_max minFontSize (Math_min maxFontSize actualFontSize))"

section \<open>Image: the placement of \<^verbatim>\<open>addImageToPage\<close>\<close>

record placement =
  pl_x :: jsnum
  pl_y :: jsnum
  pl_width :: jsnum
  pl_height :: jsnum

definition imagePlacement :: "objData \<Rightarrow> jsnum \<Rightarrow> jsnum \<Rightarrow> placement" where
  "imagePlacement imageData pageWidth pageHeight =
     (let baseWidth = orElse (o_width imageData) (Fin 120);
          baseHeight = orElse (o_height imageData) (Fin 60);
          scaleX = orElse (o_scaleX imageData) (Fin 1);
          scaleY = orElse (o_scaleY imageData) (Fin 1);
          actualWidth = baseWidth * scaleX;
          actualHeight = baseHeight * scaleY;
          x = orElse (o_left imageData) (Fin 0);
          y = pageHeight - orElse (o_top imageData) (Fin 0) - actualHeight;
          adjustedX = Math_max (Fin 0) (Math_min x (pageWidth - actualWidth));
          adjustedY = Math_max (Fin 0) (Math_min y (pageHeight - actualHeight))
      in \<lparr>pl_x = adjustedX, pl_y = adjustedY, pl_width = actualWidth, pl_height = actualHeight\<rparr>)"


section \<open>Path Command Parser: \<^verbatim>\<open>parseSVGPath\<close>\<close>

text \<open>
  The canonical command stream is an array of strings (the commands) and numbers (their
  operands). The one exception the parser can raise is a method call on a value that has
  none.
\<close>

datatype tok = Cmd string | Num jsnum

datatype jserror = TypeError

text \<open>\<^verbatim>\<open>!v\<close> on a JSON value.\<close>

fun falsy :: "jsval \<Rightarrow> bool" where
  "falsy JUndef = True"
| "falsy JNull = True"
| "falsy (JBool b) = (\<not> b)"
| "falsy (JNum n) = (\<not> truthy n)"
| "falsy (JStr s) = (s = [])"
| "falsy (JArr xs) = False"
| "falsy (JObj kvs) = False"

text \<open>\<^verbatim>\<open>toUpperCase\<close>, on the letters \<open>a-z\<close>; other code units are kept.\<close>

definition upperChar :: "char \<Rightarrow> char" where
  "upperChar c = (if 97 \<le> code c \<and> code c \<le> 122 then char_of (code c - 32) else c)"

definition toUpperCase :: "string \<Rightarrow> string" where
  "toUpperCase s = map upperChar s"

definition trim :: "string \<Rightarrow> string" where
  "trim s = rev (dropWhile is_space (rev (dropWhile is_space s)))"

definition is_dec :: "char \<Rightarrow> bool" where
  "is_dec c = is_digit_in 10 c"

text \<open>
  The exponent part of a decimal literal, \<^verbatim>\<open>e\<close> or \<^verbatim>\<open>E\<close>, an optional sign and
  digits; 0 when the text does not start with a complete one.
\<close>

definition exponentPart :: "string \<Rightarrow> int" where
  "exponentPart S =
     (if startsWith S ''e'' \<or> startsWith S ''E'' then
        let S = drop 1 S;
            neg = startsWith S ''-'';
            S = (if startsWith S ''+'' \<or> startsWith S ''-'' then drop 1 S else S);
            ds = takeWhile is_dec S
        in if ds = [] then 0
           else if neg then - int (digitsVal 10 ds) else int (digitsVal 10 ds)
      else 0)"

text \<open>
  \<^verbatim>\<open>parseFloat\<close> of a string: leading white space is skipped and the longest prefix
  that is a decimal literal (sign, \<^verbatim>\<open>Infinity\<close> or digits with an optional fraction
  and exponent) is the value, NaN when there is none. The value is the exact decimal.
\<close>

definition parseFloat :: "string \<Rightarrow> jsnum" where
  "parseFloat string =
     (let S = dropWhile is_space string;
          neg = startsWith S ''-'';
          S = (if startsWith S ''+'' \<or> startsWith S ''-'' then drop 1 S else S)
      in if startsWith S ''Infinity'' then (if neg then NInf else PInf)
         else
           let ip = takeWhile is_dec S;
               S = dropWhile is_dec S;
               hasDot = startsWith S ''.'';
               fp = (if hasDot then takeWhile is_dec (drop 1 S) else []);
               S = (if hasDot then dropWhile is_dec (drop 1 S) else S)
           in if ip = [] \<and> fp = [] then NaN
              else
                let ex = exponentPart S;
                    m = real (digitsVal 10 ip) + real (digitsVal 10 fp) / 10 ^ length fp;
                    v = (if 0 \<le> ex then m * 10 ^ nat ex else m / 10 ^ nat (- ex))
                in Fin (if neg then - v else v))"

text \<open>
  \<^verbatim>\<open>parseFloat\<close> of a JSON value, which is first turned into a string. A number gives
  itself back. An array is the comma-separated join of its elements, of which only
  the first can be read as a number, \<^verbatim>\<open>null\<close> counting as the empty string there.
  \<^verbatim>\<open>null\<close>, \<^verbatim>\<open>undefined\<close>, booleans and objects print as text that is no number.
\<close>

fun parseFloatV :: "jsval \<Rightarrow> jsnum" where
  "parseFloatV (JNum n) = n"
| "parseFloatV (JStr s) = parseFloat s"
| "parseFloatV (JArr (x # xs)) = parseFloatV x"
| "parseFloatV _ = NaN"

text \<open>
  One tuple of the array and keyed forms, lines 241-249 and 264-272: the command is
  upper-cased, every other element goes through \<^verbatim>\<open>parseFloat\<close>. A command that is not
  a string has no \<^verbatim>\<open>toUpperCase\<close>. A value that is not a non-empty array adds nothing.
\<close>

fun tupleCommands :: "jsval \<Rightarrow> jserror + tok list" where
  "tupleCommands (JArr (command # operands)) =
     (case command of
        JStr c \<Rightarrow> Inr (Cmd (toUpperCase c) # map (\<lambda>v. Num (parseFloatV v)) operands)
      | _ \<Rightarrow> Inl TypeError)"
| "tupleCommands _ = Inr []"

fun tuplesCommands :: "jsval list \<Rightarrow> jserror + tok list" where
  "tuplesCommands [] = Inr []"
| "tuplesCommands (pathCommand # rest) =
     (case tupleCommands pathCommand of
        Inl e \<Rightarrow> Inl e
      | Inr cs \<Rightarrow> (case tuplesCommands rest of Inl e \<Rightarrow> Inl e | Inr ds \<Rightarrow> Inr (cs @ ds)))"

text \<open>
  \<^verbatim>\<open>Object.keys\<close> of an object given by its properties in creation order: the keys that
  are array indices come first, in ascending numeric order, then the others in creation
  order.
\<close>

definition is_arrayIndex :: "string \<Rightarrow> bool" where
  "is_arrayIndex k =
     (k \<noteq> [] \<and> list_all is_dec k \<and> (if startsWith k ''0'' then k = ''0'' else True) \<and>
      digitsVal 10 k < 4294967295)"

definition Object_keys :: "(string \<times> 'a) list \<Rightarrow> string list" where
  "Object_keys kvs =
     (let ks = map fst kvs
      in sort_key (digitsVal 10) (filter is_arrayIndex ks) @
         filter (\<lambda>k. \<not> is_arrayIndex k) ks)"

text \<open>
  \<^verbatim>\<open>sort((a, b) => parseInt(a) - parseInt(b))\<close>. The sort of the language is stable, and
  all stable sorts agree when the comparator is an order: the model is insertion sort,
  an element moving past those it compares greater than. A NaN difference (a key that is
  no number) counts as equal.
\<close>

fun insertKey :: "string \<Rightarrow> string list \<Rightarrow> string list" where
  "insertKey a [] = [a]"
| "insertKey a (b # bs) =
     (if jlt (Fin 0) (parseInt a 0 - parseInt b 0) then b # insertKey a bs else a # b # bs)"

definition sortKeys :: "string list \<Rightarrow> string list" where
  "sortKeys ks = foldr insertKey ks []"

definition getProp :: "(string \<times> jsval) list \<Rightarrow> string \<Rightarrow> jsval" where
  "getProp kvs key = (case map_of kvs key of None \<Rightarrow> JUndef | Some v \<Rightarrow> v)"

text \<open>
  The string form, lines 281-313. \<^verbatim>\<open>replace(/\s+/g, ' ')\<close> turns each run of white space
  into one space; the flag says that the previous character was white space.
\<close>

fun collapseSpaces :: "bool \<Rightarrow> string \<Rightarrow> string" where
  "collapseSpaces inRun [] = []"
| "collapseSpaces inRun (c # cs) =
     (if is_space c then
        (if inRun then collapseSpaces True cs else CHR '' '' # collapseSpaces True cs)
      else c # collapseSpaces False cs)"

definition isCommandLetter :: "char \<Rightarrow> bool" where
  "isCommandLetter c = (upperChar c \<in> set ''MLHVCSQTAZ'')"

text \<open>
  \<^verbatim>\<open>split(/(?=[MLHVCSQTAZ])/i)\<close>: the string is cut before every command letter
  except one in first position; \<open>cur\<close> is the piece being read.
\<close>

fun splitBeforeCommands :: "string \<Rightarrow> string \<Rightarrow> string list" where
  "splitBeforeCommands cur [] = [cur]"
| "splitBeforeCommands cur (c # cs) =
     (if isCommandLetter c \<and> cur \<noteq> [] then cur # splitBeforeCommands [c] cs
      else splitBeforeCommands (cur @ [c]) cs)"

text \<open>\<^verbatim>\<open>split(/\s+/)\<close>: the string is cut at every run of white space.\<close>

fun splitSpaces :: "string \<Rightarrow> bool \<Rightarrow> string \<Rightarrow> string list" where
  "splitSpaces cur inRun [] = [cur]"
| "splitSpaces cur inRun (c # cs) =
     (if is_space c then
        (if inRun then splitSpaces cur True cs else cur # splitSpaces [] True cs)
      else splitSpaces (cur @ [c]) False cs)"

text \<open>One token of the string form, lines 288-312.\<close>

definition tokenCommands :: "string \<Rightarrow> tok list" where
  "tokenCommands token =
     (let parts = splitSpaces [] False (trim token);
          command = hd parts;
          coords = filter (\<lambda>n. n \<noteq> NaN) (map parseFloat (tl parts));
          cmd = toUpperCase command
      in Cmd cmd #
         (if cmd = ''M'' \<or> cmd = ''L'' then
            (if 2 \<le> length coords then map Num (take 2 coords) else [])
          else if cmd = ''Q'' then
            (if 4 \<le> length coords then map Num (take 4 coords) else [])
          else if cmd = ''C'' then
            (if 6 \<le> length coords then map Num (take 6 coords) else [])
          else []))"

definition parseSVGPath :: "jsval \<Rightarrow> jserror + tok list" where
  "parseSVGPath pathData =
     (if falsy pathData then Inr []
      else
        case pathData of
          JArr xs \<Rightarrow> tuplesCommands xs
        | JObj kvs \<Rightarrow>
            (let sortedKeys = sortKeys (Object_keys kvs)
             in tuplesCommands (map (getProp kvs) sortedKeys))
        | JStr s \<Rightarrow>
            (let cleaned = collapseSpaces False
                             (map (\<lambda>c. if c = CHR '','' then CHR '' '' else c) (trim s));
                 tokens = filter (\<lambda>token. trim token \<noteq> []) (splitBeforeCommands [] cleaned)
             in Inr (concat (map tokenCommands tokens)))
        | _ \<Rightarrow> Inr [])"

section \<open>Curve Flattener: \<^verbatim>\<open>drawSVGPathCommands\<close>\<close>

text \<open>
  Both loops of \<^verbatim>\<open>drawSVGPathCommands\<close> walk the stream by index and skip the operands
  of the command they have just read. The model recurses on the rest of the stream after
  the current element: \<^verbatim>\<open>pathCommands[i + 1 + k]\<close> is element \<open>k\<close> of that rest, and
  \<^verbatim>\<open>i += n\<close> drops \<open>n\<close> elements of it. An operand is used as a number: an index past
  the end gives \<^verbatim>\<open>undefined\<close>, hence NaN, and a string is converted by the language
  (\<open>toNumber\<close>, a parameter of the model).
\<close>

definition operand :: "(string \<Rightarrow> jsnum) \<Rightarrow> tok list \<Rightarrow> nat \<Rightarrow> jsnum" where
  "operand toNumber rest k =
     (if k < length rest then (case rest ! k of Num n \<Rightarrow> n | Cmd s \<Rightarrow> toNumber s) else NaN)"

record bounds =
  b_minX :: jsnum
  b_minY :: jsnum
  b_maxX :: jsnum
  b_maxY :: jsnum

text \<open>
  The bounding-box loop, lines 336-366. \<open>bboxStep\<close> is its body at a string \<open>cmd\<close>
  followed by \<open>rest\<close>: the number of operands to skip (\<^verbatim>\<open>i += n\<close>) and the new bounds.
\<close>

definition bboxStep ::
    "(string \<Rightarrow> jsnum) \<Rightarrow> string \<Rightarrow> tok list \<Rightarrow> bounds \<Rightarrow> nat \<times> bounds" where
  "bboxStep toNumber cmd rest b =
     (if cmd = ''M'' \<or> cmd = ''L'' then
        (let x = operand toNumber rest 0; y = operand toNumber rest 1
         in (2,
              \<lparr>b_minX = Math_min (b_minX b) x, b_minY = Math_min (b_minY b) y,
               b_maxX = Math_max (b_maxX b) x, b_maxY = Math_max (b_maxY b) y\<rparr>))
      else if cmd = ''Q'' then
        (let cp1x = operand toNumber rest 0; cp1y = operand toNumber rest 1;
             x = operand toNumber rest 2; y = operand toNumber rest 3
         in (4,
              \<lparr>b_minX = Math_min (Math_min (b_minX b) cp1x) x,
               b_minY = Math_min (Math_min (b_minY b) cp1y) y,
               b_maxX = Math_max (Math_max (b_maxX b) cp1x) x,
               b_maxY = Math_max (Math_max (b_maxY b) cp1y) y\<rparr>))
      else if cmd = ''C'' then
        (let cp1x = operand toNumber rest 0; cp1y = operand toNumber rest 1;
             cp2x = operand toNumber rest 2; cp2y = operand toNumber rest 3;
             x = operand toNumber rest 4; y = operand toNumber rest 5
         in (6,
              \<lparr>b_minX = Math_min (Math_min (Math_min (b_minX b) cp1x) cp2x) x,
               b_minY = Math_min (Math_min (Math_min (b_minY b) cp1y) cp2y) y,
               b_maxX = Math_max (Math_max (Math_max (b_maxX b) cp1x) cp2x) x,
               b_maxY = Math_max (Math_max (Math_max (b_maxY b) cp1y) cp2y) y\<rparr>))
      else (0, b))"

fun bboxLoop :: "(string \<Rightarrow> jsnum) \<Rightarrow> tok list \<Rightarrow> bounds \<Rightarrow> bounds" where
  "bboxLoop toNumber [] b = b"
| "bboxLoop toNumber (Num n # rest) b = bboxLoop toNumber rest b"
| "bboxLoop toNumber (Cmd cmd # rest) b =
     (case bboxStep toNumber cmd rest b of (n, b') \<Rightarrow> bboxLoop toNumber (drop n rest) b')"

text \<open>
  The values of \<open>t\<close> that \<^verbatim>\<open>for (let t = t0; t <= 1; t += 0.1)\<close> visits, from \<open>t0\<close>.
\<close>

function tLoop :: "real \<Rightarrow> real list" where
  "tLoop t = (if t \<le> 1 then t # tLoop (t + 1 / 10) else [])"
  by pat_completeness auto
termination
proof (relation "measure (\<lambda>t. nat \<lceil>(2 - t) * 10\<rceil>)")
  show "wf (measure (\<lambda>t. nat \<lceil>(2 - t) * 10\<rceil>))" by simp
next
  fix t :: real
  assume "t \<le> 1"
  have "\<lceil>(2 - (t + 1 / 10)) * 10\<rceil> = \<lceil>(2 - t) * 10\<rceil> - 1"
    by (simp add: algebra_simps) linarith
  moreover have "0 < \<lceil>(2 - t) * 10\<rceil>"
    using \<open>t \<le> 1\<close> by (simp add: algebra_simps)
  ultimately show "(t + 1 / 10, t) \<in> measure (\<lambda>t. nat \<lceil>(2 - t) * 10\<rceil>)"
    by simp
qed

text \<open>The constants of the transform (lines 324-327, 335) and the state of the draw loop.\<close>

record frame =
  f_scaleX :: jsnum
  f_scaleY :: jsnum
  f_objectLeft :: jsnum
  f_objectTop :: jsnum
  f_minX :: jsnum
  f_minY :: jsnum
  f_pageHeight :: jsnum

type_synonym point = "jsnum \<times> jsnum"

record flat =
  pathSegments :: "point list list"
  currentSegment :: "point list"
  currentX :: jsnum
  currentY :: jsnum

text \<open>
  The draw loop, lines 377-503. \<open>drawStep\<close> is its body at a string \<open>cmd\<close> followed by
  \<open>rest\<close>: the number of operands to skip and the new state.
\<close>

definition drawStep ::
    "(string \<Rightarrow> jsnum) \<Rightarrow> frame \<Rightarrow> string \<Rightarrow> tok list \<Rightarrow> flat \<Rightarrow> nat \<times> flat" where
  "drawStep toNumber fr cmd rest st =
     (if cmd = ''M'' then
        (let st = (if currentSegment st \<noteq> []
                   then st\<lparr>pathSegments := pathSegments st @ [currentSegment st],
                           currentSegment := []\<rparr>
                   else st);
             pathX = operand toNumber rest 0;
             pathY = operand toNumber rest 1;
             relativeX = (pathX - f_minX fr) * f_scaleX fr;
             relativeY = (pathY - f_minY fr) * f_scaleY fr;
             x = f_objectLeft fr + relativeX;
             y = f_pageHeight fr - (f_objectTop fr + relativeY)
         in (2,
              st\<lparr>currentSegment := currentSegment st @ [(x, y)],
                  currentX := x, currentY := y\<rparr>))
      else if cmd = ''L'' then
        (let pathX = operand toNumber rest 0;
             pathY = operand toNumber rest 1;
             relativeX = (pathX - f_minX fr) * f_scaleX fr;
             relativeY = (pathY - f_minY fr) * f_scaleY fr;
             x = f_objectLeft fr + relativeX;
             y = f_pageHeight fr - (f_objectTop fr + relativeY)
         in (2,
              st\<lparr>currentSegment := currentSegment st @ [(x, y)],
                  currentX := x, currentY := y\<rparr>))
      else if cmd = ''Q'' then
        (let pathCpx = operand toNumber rest 0;
             pathCpy = operand toNumber rest 1;
             pathX = operand toNumber rest 2;
             pathY = operand toNumber rest 3;
             relativeCpx = (pathCpx - f_minX fr) * f_scaleX fr;
             relativeCpy = (pathCpy - f_minY fr) * f_scaleY fr;
             relativeX = (pathX - f_minX fr) * f_scaleX fr;
             relativeY = (pathY - f_minY fr) * f_scaleY fr;
             cpx = f_objectLeft fr + relativeCpx;
             cpy = f_pageHeight fr - (f_objectTop fr + relativeCpy);
             x = f_objectLeft fr + relativeX;
             y = f_pageHeight fr - (f_objectTop fr + relativeY);
             curveX = (\<lambda>t. Fin ((1 - t) * (1 - t)) * currentX st + Fin (2 * (1 - t) * t) * cpx
                             + Fin (t * t) * x);
             curveY = (\<lambda>t. Fin ((1 - t) * (1 - t)) * currentY st + Fin (2 * (1 - t) * t) * cpy
                             + Fin (t * t) * y)
         in (4,
              st\<lparr>currentSegment :=
                    currentSegment st @ map (\<lambda>t. (curveX t, curveY t)) (tLoop (1 / 10)),
                  currentX := x, currentY := y\<rparr>))
      else if cmd = ''C'' then
        (let pathCp1x = operand toNumber rest 0;
             pathCp1y = operand toNumber rest 1;
             pathCp2x = operand toNumber rest 2;
             pathCp2y = operand toNumber rest 3;
             pathX = operand toNumber rest 4;
             pathY = operand toNumber rest 5;
             relativeCp1x = (pathCp1x - f_minX fr) * f_scaleX fr;
             relativeCp1y = (pathCp1y - f_minY fr) * f_scaleY fr;
             relativeCp2x = (pathCp2x - f_minX fr) * f_scaleX fr;
             relativeCp2y = (pathCp2y - f_minY fr) * f_scaleY fr;
             relativeX = (pathX - f_minX fr) * f_scaleX fr;
             relativeY = (pathY - f_minY fr) * f_scaleY fr;
             cp1x = f_objectLeft fr + relativeCp1x;
             cp1y = f_pageHeight fr - (f_objectTop fr + relativeCp1y);
             cp2x = f_objectLeft fr + relativeCp2x;
             cp2y = f_pageHeight fr - (f_objectTop fr + relativeCp2y);
             x = f_objectLeft fr + relativeX;
             y = f_pageHeight fr - (f_objectTop fr + relativeY);
             curveX = (\<lambda>t. Fin ((1 - t) ^ 3) * currentX st + Fin (3 * (1 - t) ^ 2 * t) * cp1x
                             + Fin (3 * (1 - t) * t ^ 2) * cp2x + Fin (t ^ 3) * x);
             curveY = (\<lambda>t. Fin ((1 - t) ^ 3) * currentY st + Fin (3 * (1 - t) ^ 2 * t) * cp1y
                             + Fin (3 * (1 - t) * t ^ 2) * cp2y + Fin (t ^ 3) * y)
         in (6,
              st\<lparr>currentSegment :=
                    currentSegment st @ map (\<lambda>t. (curveX t, curveY t)) (tLoop 0),
                  currentX := x, currentY := y\<rparr>))
      else if cmd = ''Z'' then
        (0, if currentSegment st \<noteq> []
            then st\<lparr>currentSegment := currentSegment st @ [hd (currentSegment st)]\<rparr>
            else st)
      else (0, st))"

fun drawLoop :: "(string \<Rightarrow> jsnum) \<Rightarrow> frame \<Rightarrow> tok list \<Rightarrow> flat \<Rightarrow> flat" where
  "drawLoop toNumber fr [] st = st"
| "drawLoop toNumber fr (Num n # rest) st = drawLoop toNumber fr rest st"
| "drawLoop toNumber fr (Cmd cmd # rest) st =
     (case drawStep toNumber fr cmd rest st of
        (n, st') \<Rightarrow> drawLoop toNumber fr (drop n rest) st')"

text \<open>
  \<^verbatim>\<open>pathSegments\<close> as it stands at line 508, after the last open segment has been added,
  and the segments that line 512 lets through to \<^verbatim>\<open>drawPathSegment\<close>.
\<close>

definition collectSegments ::
    "(string \<Rightarrow> jsnum) \<Rightarrow> tok list \<Rightarrow> objData \<Rightarrow> jsnum \<Rightarrow> point list list" where
  "collectSegments toNumber pathCommands pathData pageHeight =
     (let scaleX = orElse (o_scaleX pathData) (Fin 1);
          scaleY = orElse (o_scaleY pathData) (Fin 1);
          objectLeft = orElse (o_left pathData) (Fin 0);
          objectTop = orElse (o_top pathData) (Fin 0);
          bb = bboxLoop toNumber pathCommands
                 \<lparr>b_minX = PInf, b_minY = PInf, b_maxX = NInf, b_maxY = NInf\<rparr>;
          fr = \<lparr>f_scaleX = scaleX, f_scaleY = scaleY, f_objectLeft = objectLeft,
                f_objectTop = objectTop, f_minX = b_minX bb, f_minY = b_minY bb,
                f_pageHeight = pageHeight\<rparr>;
          st = drawLoop toNumber fr pathCommands
                 \<lparr>pathSegments = [], currentSegment = [], currentX = Fin 0, currentY = Fin 0\<rparr>
      in if currentSegment st \<noteq> [] then pathSegments st @ [currentSegment st]
         else pathSegments st)"

definition drawnSegments ::
    "(string \<Rightarrow> jsnum) \<Rightarrow> tok list \<Rightarrow> objData \<Rightarrow> jsnum \<Rightarrow> point list list" where
  "drawnSegments toNumber pathCommands pathData pageHeight =
     filter (\<lambda>segment. 1 < length segment)
       (collectSegments toNumber pathCommands pathData pageHeight)"

section \<open>Pages and the drawing library\<close>

text \<open>
  A page of the document is its size and the marks drawn on it so far, in drawing order
  (a later mark lies on top). The marks are the calls of the drawing library pdf-lib that
  the renderers make: \<^verbatim>\<open>drawText\<close>, \<^verbatim>\<open>drawLine\<close>, \<^verbatim>\<open>drawRectangle\<close>, \<^verbatim>\<open>drawImage\<close>,
  with the options the source passes.
\<close>

datatype imgKind = Png | Jpg

datatype mark =
    TextMark string jsnum jsnum jsnum color
  | LineMark point point jsnum color
  | RectMark jsnum jsnum jsnum jsnum color jsnum "color option"
  | ImageMark imgKind string jsnum jsnum jsnum jsnum

record page =
  pg_width :: jsnum
  pg_height :: jsnum
  pg_marks :: "mark list"

definition addMark :: "mark \<Rightarrow> page \<Rightarrow> page" where
  "addMark m page = page\<lparr>pg_marks := pg_marks page @ [m]\<rparr>"

text \<open>
  The library is not part of the repository. Which of its calls return and which throw
  is a parameter of the model: \<open>rgb_ok\<close> for \<^verbatim>\<open>rgb(r, g, b)\<close>, \<open>embedFont_ok\<close> for
  \<^verbatim>\<open>embedFont\<close>, \<open>embedImage_ok\<close> for \<^verbatim>\<open>embedPng\<close> and \<^verbatim>\<open>embedJpg\<close> on decoded
  base64 data, \<open>draw_ok\<close> for a drawing call. A call that throws leaves no mark.
\<close>

record pdflib =
  rgb_ok :: "jsnum \<Rightarrow> jsnum \<Rightarrow> jsnum \<Rightarrow> bool"
  embedFont_ok :: bool
  embedImage_ok :: "imgKind \<Rightarrow> string \<Rightarrow> bool"
  draw_ok :: "mark \<Rightarrow> bool"

text \<open>
  A renderer returns normally or throws; either way the page is left as the calls made
  so far have drawn it.
\<close>

datatype result = Done page | Threw page

section \<open>Annotation Renderer\<close>

text \<open>\<^verbatim>\<open>addTextToPage\<close>, lines 147-191; its \<^verbatim>\<open>catch\<close> logs and throws again.\<close>

definition addTextToPage :: "pdflib \<Rightarrow> objData \<Rightarrow> jsnum \<Rightarrow> jsnum \<Rightarrow> page \<Rightarrow> result" where
  "addTextToPage L textData pageWidth pageHeight page =
     (let fontSize = actualFontSize textData;
          color = parseColor (orElseS (o_fill textData) ''#000000'');
          text = orElseS (o_text textData) []
      in if trim text = [] then Done page
         else
           let x = orElse (o_left textData) (Fin 0);
               y = pageHeight - orElse (o_top textData) (Fin 0) - fontSize * Fin (87 / 100)
           in if \<not> embedFont_ok L then Threw page
              else if \<not> rgb_ok L (color_r color) (color_g color) (color_b color) then Threw page
              else if \<not> draw_ok L (TextMark text x y fontSize color) then Threw page
              else Done (addMark (TextMark text x y fontSize color) page))"

text \<open>
  \<^verbatim>\<open>drawPathSegment\<close>, lines 519-536: one line per pair of consecutive points; a call
  that throws ends the segment, and the exception is caught there.
\<close>

fun drawLines :: "pdflib \<Rightarrow> color \<Rightarrow> jsnum \<Rightarrow> point list \<Rightarrow> page \<Rightarrow> page" where
  "drawLines L color strokeWidth (p # q # points) page =
     (if draw_ok L (LineMark p q strokeWidth color)
      then drawLines L color strokeWidth (q # points)
             (addMark (LineMark p q strokeWidth color) page)
      else page)"
| "drawLines L color strokeWidth points page = page"

definition drawPathSegment :: "pdflib \<Rightarrow> point list \<Rightarrow> color \<Rightarrow> jsnum \<Rightarrow> page \<Rightarrow> page" where
  "drawPathSegment L points color strokeWidth page =
     (if length points < 2 then page else drawLines L color strokeWidth points page)"

text \<open>
  \<^verbatim>\<open>drawSVGPathCommands\<close>, lines 322-517: the segments are those of \<open>drawnSegments\<close>;
  the color is built at line 369.
\<close>

definition drawSVGPathCommands ::
    "pdflib \<Rightarrow> (string \<Rightarrow> jsnum) \<Rightarrow> tok list \<Rightarrow> objData \<Rightarrow> jsnum \<Rightarrow> color \<Rightarrow> jsnum \<Rightarrow> page
     \<Rightarrow> result" where
  "drawSVGPathCommands L toNumber pathCommands pathData pageHeight color strokeWidth page =
     (if \<not> rgb_ok L (color_r color) (color_g color) (color_b color) then Threw page
      else Done (foldl (\<lambda>pg segment. drawPathSegment L segment color strokeWidth pg) page
                   (drawnSegments toNumber pathCommands pathData pageHeight)))"

text \<open>\<^verbatim>\<open>renderPathBoundingBox\<close>, lines 538-564.\<close>

definition renderPathBoundingBox ::
    "pdflib \<Rightarrow> objData \<Rightarrow> jsnum \<Rightarrow> jsnum \<Rightarrow> color \<Rightarrow> jsnum \<Rightarrow> page \<Rightarrow> result" where
  "renderPathBoundingBox L pathData pageWidth pageHeight color strokeWidth page =
     (let baseWidth = orElse (o_width pathData) (Fin 0);
          baseHeight = orElse (o_height pathData) (Fin 0);
          scaleX = orElse (o_scaleX pathData) (Fin 1);
          scaleY = orElse (o_scaleY pathData) (Fin 1);
          actualWidth = baseWidth * scaleX;
          actualHeight = baseHeight * scaleY
      in case (o_left pathData, o_top pathData) of
           (Some leftV, Some topV) \<Rightarrow>
             if jlt (Fin 0) actualWidth \<and> jlt (Fin 0) actualHeight then
               (let x = leftV;
                    y = pageHeight - topV - actualHeight;
                    rect = RectMark x y actualWidth actualHeight color
                             (Math_max (Fin 1) strokeWidth) None
                in if \<not> rgb_ok L (color_r color) (color_g color) (color_b color) then Threw page
                   else if \<not> draw_ok L rect then Threw page
                   else Done (addMark rect page))
             else Done page
         | _ \<Rightarrow> Done page)"

text \<open>
  \<^verbatim>\<open>renderSVGPath\<close>, lines 216-228: an exception of the parser or of the flattener is
  caught, and the bounding box is drawn instead.
\<close>

definition renderSVGPath ::
    "pdflib \<Rightarrow> (string \<Rightarrow> jsnum) \<Rightarrow> objData \<Rightarrow> jsnum \<Rightarrow> jsnum \<Rightarrow> color \<Rightarrow> jsnum \<Rightarrow> page
     \<Rightarrow> result" where
  "renderSVGPath L toNumber pathData pageWidth pageHeight color strokeWidth page =
     (case (case parseSVGPath (o_path pathData) of
              Inl e \<Rightarrow> Threw page
            | Inr pathCommands \<Rightarrow>
                drawSVGPathCommands L toNumber pathCommands pathData pageHeight color
                  strokeWidth page) of
        Done page' \<Rightarrow> Done page'
      | Threw page' \<Rightarrow>
          renderPathBoundingBox L pathData pageWidth pageHeight color strokeWidth page')"

text \<open>
  The test of lines 200-203: the path is truthy, and is a non-empty string or an object
  (an array counts) with at least one key.
\<close>

fun hasPathData :: "jsval \<Rightarrow> bool" where
  "hasPathData (JStr s) = (s \<noteq> [])"
| "hasPathData (JArr xs) = (xs \<noteq> [])"
| "hasPathData (JObj kvs) = (kvs \<noteq> [])"
| "hasPathData _ = False"

text \<open>\<^verbatim>\<open>addPathToPage\<close>, lines 193-214; its \<^verbatim>\<open>catch\<close> logs and does not throw.\<close>

definition addPathToPage ::
    "pdflib \<Rightarrow> (string \<Rightarrow> jsnum) \<Rightarrow> objData \<Rightarrow> jsnum \<Rightarrow> jsnum \<Rightarrow> page \<Rightarrow> result" where
  "addPathToPage L toNumber pathData pageWidth pageHeight page =
     (let color = parseColor (orElseS (o_stroke pathData) ''#000000'');
          strokeWidth = orElse (o_strokeWidth pathData) (Fin 2)
      in case (if hasPathData (o_path pathData)
               then renderSVGPath L toNumber pathData pageWidth pageHeight color strokeWidth page
               else renderPathBoundingBox L pathData pageWidth pageHeight color strokeWidth page) of
           Done page' \<Rightarrow> Done page'
         | Threw page' \<Rightarrow> Done page')"

text \<open>\<^verbatim>\<open>renderSignaturePlaceholder\<close>, lines 632-657.\<close>

definition renderSignaturePlaceholder ::
    "pdflib \<Rightarrow> jsnum \<Rightarrow> jsnum \<Rightarrow> jsnum \<Rightarrow> jsnum \<Rightarrow> page \<Rightarrow> result" where
  "renderSignaturePlaceholder L x y width height page =
     (let border = Color (Fin (4 / 10)) (Fin (4 / 10)) (Fin (8 / 10));
          fill = Color (Fin (9 / 10)) (Fin (9 / 10)) (Fin 1);
          rect = RectMark x y width height border (Fin 1) (Some fill)
      in if \<not> rgb_ok L (Fin (4 / 10)) (Fin (4 / 10)) (Fin (8 / 10)) then Threw page
         else if \<not> rgb_ok L (Fin (9 / 10)) (Fin (9 / 10)) (Fin 1) then Threw page
         else if \<not> draw_ok L rect then Threw page
         else
           let page = addMark rect page
           in if \<not> embedFont_ok L then Threw page
              else
                let fontSize = Math_min (Math_min (Fin 10) (jdiv height (Fin 3)))
                                 (jdiv width (Fin 8))
                in if jlt (Fin 6) fontSize then
                     (let caption = TextMark ''SIGNATURE'' (x + Fin 5)
                                      (y + jdiv height (Fin 2) - jdiv fontSize (Fin 2))
                                      fontSize border
                      in if \<not> draw_ok L caption then Threw page
                         else Done (addMark caption page))
                   else Done page)"

text \<open>\<^verbatim>\<open>s.split(',')\<close>.\<close>

fun splitComma :: "string \<Rightarrow> string \<Rightarrow> string list" where
  "splitComma cur [] = [cur]"
| "splitComma cur (c # cs) =
     (if c = CHR '','' then cur # splitComma [] cs else splitComma (cur @ [c]) cs)"

text \<open>
  \<^verbatim>\<open>renderSignatureImage\<close>, lines 600-630. Without a comma in the data URL the base64
  part is \<^verbatim>\<open>undefined\<close> and \<^verbatim>\<open>Buffer.from\<close> throws; every exception is caught and the
  placeholder is drawn instead.
\<close>

definition renderSignatureImage ::
    "pdflib \<Rightarrow> objData \<Rightarrow> jsnum \<Rightarrow> jsnum \<Rightarrow> jsnum \<Rightarrow> jsnum \<Rightarrow> page \<Rightarrow> result" where
  "renderSignatureImage L imageData x y width height page =
     (let imageDataUrl = (case o_src imageData of None \<Rightarrow> [] | Some s \<Rightarrow> s);
          parts = splitComma [] imageDataUrl
      in case (if length parts < 2 then Threw page
               else
                 let base64Data = parts ! 1;
                     kind = (if startsWith imageDataUrl ''data:image/png'' then Png
                             else if startsWith imageDataUrl ''data:image/jpeg'' \<or>
                                     startsWith imageDataUrl ''data:image/jpg'' then Jpg
                             else Png)
                 in if \<not> embedImage_ok L kind base64Data then Threw page
                    else if \<not> draw_ok L (ImageMark kind base64Data x y width height)
                    then Threw page
                    else Done (addMark (ImageMark kind base64Data x y width height) page)) of
           Done page' \<Rightarrow> Done page'
         | Threw page' \<Rightarrow> renderSignaturePlaceholder L x y width height page')"

text \<open>\<^verbatim>\<open>addImageToPage\<close>, lines 566-598; its \<^verbatim>\<open>catch\<close> logs and does not throw.\<close>

definition addImageToPage :: "pdflib \<Rightarrow> objData \<Rightarrow> jsnum \<Rightarrow> jsnum \<Rightarrow> page \<Rightarrow> result" where
  "addImageToPage L imageData pageWidth pageHeight page =
     (let pl = imagePlacement imageData pageWidth pageHeight;
          hasImage = (case o_src imageData of
                        None \<Rightarrow> False
                      | Some s \<Rightarrow> s \<noteq> [] \<and> startsWith s ''data:image/'')
      in case (if hasImage
               then renderSignatureImage L imageData (pl_x pl) (pl_y pl) (pl_width pl)
                      (pl_height pl) page
               else renderSignaturePlaceholder L (pl_x pl) (pl_y pl) (pl_width pl)
                      (pl_height pl) page) of
           Done page' \<Rightarrow> Done page'
         | Threw page' \<Rightarrow> Done page')"

section \<open>Page Flattening Orchestrator: \<^verbatim>\<open>addAnnotationsToPage\<close>\<close>

text \<open>
  The body of the \<^verbatim>\<open>try\<close> of lines 130-139 for one element of the page's array. An
  element may be \<^verbatim>\<open>null\<close> (\<open>None\<close>): reading its \<^verbatim>\<open>type\<close> throws. An object of another
  type is passed over.
\<close>

definition renderAnnotation ::
    "pdflib \<Rightarrow> (string \<Rightarrow> jsnum) \<Rightarrow> jsnum \<Rightarrow> jsnum \<Rightarrow> objData option \<Rightarrow> page \<Rightarrow> result" where
  "renderAnnotation L toNumber pageWidth pageHeight objData page =
     (case objData of
        None \<Rightarrow> Threw page
      | Some d \<Rightarrow>
          if o_type d = Some ''i-text'' then addTextToPage L d pageWidth pageHeight page
          else if o_type d = Some ''path'' then
            addPathToPage L toNumber d pageWidth pageHeight page
          else if o_type d = Some ''image'' then addImageToPage L d pageWidth pageHeight page
          else Done page)"

text \<open>
  The loop of lines 128-144: the \<^verbatim>\<open>catch\<close> logs the exception and the loop goes on
  with the next element, on the page as the failed renderer left it.
\<close>

fun annotationLoop ::
    "pdflib \<Rightarrow> (string \<Rightarrow> jsnum) \<Rightarrow> jsnum \<Rightarrow> jsnum \<Rightarrow> objData option list \<Rightarrow> page \<Rightarrow> result" where
  "annotationLoop L toNumber pageWidth pageHeight [] page = Done page"
| "annotationLoop L toNumber pageWidth pageHeight (objData # pageObjects) page =
     (case renderAnnotation L toNumber pageWidth pageHeight objData page of
        Done page' \<Rightarrow> annotationLoop L toNumber pageWidth pageHeight pageObjects page'
      | Threw page' \<Rightarrow> annotationLoop L toNumber pageWidth pageHeight pageObjects page')"

definition addAnnotationsToPage ::
    "pdflib \<Rightarrow> (string \<Rightarrow> jsnum) \<Rightarrow> page \<Rightarrow> objData option list \<Rightarrow> result" where
  "addAnnotationsToPage L toNumber page pageObjects =
     (let pageWidth = pg_width page; pageHeight = pg_height page
      in annotationLoop L toNumber pageWidth pageHeight pageObjects page)"

section \<open>Document load and save: \<^verbatim>\<open>loadPdf\<close>, \<^verbatim>\<open>savePdfWithChanges\<close>\<close>

text \<open>
  The temporary directory, by file name: a regular file with its bytes, a directory, or
  an entry on which the file system answers with an error other than \<^verbatim>\<open>ENOENT\<close>
  (\<open>Faulty\<close>). A name not in the map does not exist. File ids are the UUIDs that
  \<^verbatim>\<open>savePdfFromBase64\<close> makes, so \<^verbatim>\<open>path.join\<close> only puts the directory in front.
\<close>

type_synonym bytes = string

datatype node = File bytes | Dir | Faulty

type_synonym filesys = "string \<Rightarrow> node option"

datatype fserror = ENOENT | EOTHER

text \<open>\<^verbatim>\<open>fs.stat\<close>, giving \<^verbatim>\<open>stats.isFile()\<close>; \<^verbatim>\<open>fs.readFile\<close>; \<^verbatim>\<open>fs.writeFile\<close>.\<close>

definition stat :: "filesys \<Rightarrow> string \<Rightarrow> fserror + bool" where
  "stat fs path =
     (case fs path of
        None \<Rightarrow> Inl ENOENT
      | Some Faulty \<Rightarrow> Inl EOTHER
      | Some Dir \<Rightarrow> Inr False
      | Some (File b) \<Rightarrow> Inr True)"

definition readFile :: "filesys \<Rightarrow> string \<Rightarrow> fserror + bytes" where
  "readFile fs path =
     (case fs path of
        None \<Rightarrow> Inl ENOENT
      | Some (File b) \<Rightarrow> Inr b
      | Some _ \<Rightarrow> Inl EOTHER)"

definition writeFile :: "filesys \<Rightarrow> string \<Rightarrow> bytes \<Rightarrow> fserror + filesys" where
  "writeFile fs path data =
     (case fs path of
        Some Dir \<Rightarrow> Inl EOTHER
      | Some Faulty \<Rightarrow> Inl EOTHER
      | _ \<Rightarrow> Inr (fs(path \<mapsto> File data)))"

text \<open>
  \<^verbatim>\<open>loadPdf\<close>, lines 25-43. An exception inside the \<^verbatim>\<open>try\<close>, from \<^verbatim>\<open>stat\<close> or from
  \<^verbatim>\<open>readFile\<close>, is thrown again unless its code is \<^verbatim>\<open>ENOENT\<close>.
\<close>

definition loadPdf :: "filesys \<Rightarrow> string \<Rightarrow> fserror + bytes" where
  "loadPdf fs fileId =
     (let filledPath = fileId @ ''_filled.pdf'';
          filePath = fileId @ ''.pdf''
      in case (case stat fs filledPath of
                 Inl e \<Rightarrow> Inl e
               | Inr isFile \<Rightarrow>
                   if isFile then map_sum id Some (readFile fs filledPath) else Inr None) of
           Inr (Some filled) \<Rightarrow> Inr filled
         | Inr None \<Rightarrow> readFile fs filePath
         | Inl e \<Rightarrow> if e \<noteq> ENOENT then Inl e else readFile fs filePath)"

text \<open>
  A document is the list of its pages. Parsing and serialising are the library's
  \<^verbatim>\<open>PDFDocument.load\<close> and \<^verbatim>\<open>save\<close>, parameters of the model; \<open>None\<close> is a call that
  throws.
\<close>

type_synonym doc = "page list"

record pdfcodec =
  io_load :: "bytes \<Rightarrow> doc option"
  io_save :: "doc \<Rightarrow> bytes option"

text \<open>\<^verbatim>\<open>pdfDoc.getPage(index)\<close>, which throws unless \<open>0 \<le> index < page count\<close>.\<close>

definition getPage :: "doc \<Rightarrow> jsnum \<Rightarrow> (nat \<times> page) option" where
  "getPage pdfDoc index =
     (case index of
        Fin r \<Rightarrow> if 0 \<le> r \<and> r < real (length pdfDoc) \<and> r = real_of_int \<lfloor>r\<rfloor>
                 then Some (nat \<lfloor>r\<rfloor>, pdfDoc ! nat \<lfloor>r\<rfloor>) else None
      | _ \<Rightarrow> None)"

datatype exn = FsError fserror | UnableToProcess | PdfLibError | RenderError

text \<open>
  The submitted page set: page-number keys with their annotation arrays; an array may be
  \<^verbatim>\<open>null\<close> (\<open>None\<close>).
\<close>

record modifications =
  m_pages :: "(string \<times> objData option list option) list"

text \<open>
  The loop of lines 100-110 over the keys of \<^verbatim>\<open>modifications.pages\<close>, in the order of
  \<^verbatim>\<open>for ... in\<close>. The page object is changed in place: the document holds the page
  that \<^verbatim>\<open>addAnnotationsToPage\<close> has drawn on.
\<close>

fun pagesLoop ::
    "pdflib \<Rightarrow> (string \<Rightarrow> jsnum) \<Rightarrow> (string \<times> objData option list option) list \<Rightarrow> string list
     \<Rightarrow> doc \<Rightarrow> exn + doc" where
  "pagesLoop L toNumber pages [] pdfDoc = Inr pdfDoc"
| "pagesLoop L toNumber pages (pageNumStr # keys) pdfDoc =
     (let pageNum = parseInt pageNumStr 0;
          pageObjects = (case map_of pages pageNumStr of None \<Rightarrow> None | Some v \<Rightarrow> v)
      in case pageObjects of
           None \<Rightarrow> pagesLoop L toNumber pages keys pdfDoc
         | Some [] \<Rightarrow> pagesLoop L toNumber pages keys pdfDoc
         | Some objs \<Rightarrow>
             (case getPage pdfDoc (pageNum - Fin 1) of
                None \<Rightarrow> Inl PdfLibError
              | Some (i, page) \<Rightarrow>
                  (case addAnnotationsToPage L toNumber page objs of
                     Threw page' \<Rightarrow> Inl RenderError
                   | Done page' \<Rightarrow> pagesLoop L toNumber pages keys (pdfDoc[i := page']))))"

text \<open>
  \<^verbatim>\<open>savePdfWithChanges\<close>, lines 78-123: the result and the file system after the call.
  The outer \<^verbatim>\<open>catch\<close> logs and throws again.
\<close>

definition savePdfWithChanges ::
    "pdflib \<Rightarrow> pdfcodec \<Rightarrow> (string \<Rightarrow> jsnum) \<Rightarrow> filesys \<Rightarrow> string \<Rightarrow> modifications
     \<Rightarrow> (exn + string) \<times> filesys" where
  "savePdfWithChanges L C toNumber fs fileId modifications =
     (let modifiedFilePath = fileId @ ''_filled.pdf''
      in case loadPdf fs fileId of
           Inl e \<Rightarrow> (Inl (FsError e), fs)
         | Inr existingPdfBytes \<Rightarrow>
             (case io_load C existingPdfBytes of
                None \<Rightarrow> (Inl UnableToProcess, fs)
              | Some pdfDoc \<Rightarrow>
                  (case pagesLoop L toNumber (m_pages modifications)
                          (Object_keys (m_pages modifications)) pdfDoc of
                     Inl e \<Rightarrow> (Inl e, fs)
                   | Inr pdfDoc' \<Rightarrow>
                       (case io_save C pdfDoc' of
                          None \<Rightarrow> (Inl PdfLibError, fs)
                        | Some modifiedPdfBytes \<Rightarrow>
                            (case writeFile fs modifiedFilePath modifiedPdfBytes of
                               Inl e \<Rightarrow> (Inl (FsError e), fs)
                             | Inr fs' \<Rightarrow> (Inr (fileId @ ''_filled''), fs'))))))"

section \<open>The loop counter in binary64\<close>

text \<open>
  The counter \<open>t\<close> of the two sampling loops is a binary64 number, and \<^verbatim>\<open>t += 0.1\<close>
  rounds. Whether rounding changes the number of iterations is settled on an exact model
  of that one addition: a binary64 value is a rational, the sum is rounded to the nearest
  multiple of \<open>2\<^sup>-\<^sup>5\<^sup>2\<^sup>-\<^sup>k\<close> in the binade \<open>[2\<^sup>-\<^sup>k, 2\<^sup>1\<^sup>-\<^sup>k)\<close> it falls in, ties to the even
  multiple. Only the binades that the counter visits are modelled (\<open>None\<close> outside
  \<open>[1/16, 2)\<close>), and the loop has fuel.
\<close>

definition roundHalfEven :: "rat \<Rightarrow> int" where
  "roundHalfEven q =
     (let f = \<lfloor>q\<rfloor>; r = q - of_int f
      in if r < 1 / 2 then f else if 1 / 2 < r then f + 1 else if even f then f else f + 1)"

definition binade :: "rat \<Rightarrow> nat option" where
  "binade x =
     (if 1 \<le> x \<and> x < 2 then Some 0
      else if 1 / 2 \<le> x \<and> x < 1 then Some 1
      else if 1 / 4 \<le> x \<and> x < 1 / 2 then Some 2
      else if 1 / 8 \<le> x \<and> x < 1 / 4 then Some 3
      else if 1 / 16 \<le> x \<and> x < 1 / 8 then Some 4
      else None)"

definition round64 :: "rat \<Rightarrow> rat option" where
  "round64 x =
     (if x = 0 then Some 0
      else case binade x of
             None \<Rightarrow> None
           | Some k \<Rightarrow> Some (of_int (roundHalfEven (x * 2 ^ (52 + k))) / 2 ^ (52 + k)))"

text \<open>The literal \<^verbatim>\<open>0.1\<close>: the binary64 number nearest to one tenth.\<close>

definition tenth64 :: rat where
  "tenth64 = 3602879701896397 / 36028797018963968"

fun tLoop64 :: "nat \<Rightarrow> rat \<Rightarrow> rat list option" where
  "tLoop64 0 t = None"
| "tLoop64 (Suc fuel) t =
     (if t \<le> 1 then
        (case round64 (t + tenth64) of
           None \<Rightarrow> None
         | Some t' \<Rightarrow> map_option ((#) t) (tLoop64 fuel t'))
      else Some [])"

section \<open>Reference definitions for the stated properties\<close>

text \<open>The object with no field, \<^verbatim>\<open>{}\<close>; examples set the fields they need.\<close>

definition noFields :: objData where
  "noFields =
     \<lparr>o_type = None, o_text = None, o_left = None, o_top = None, o_fontSize = None,
      o_manualScaleX = None, o_manualScaleY = None, o_scaleX = None, o_scaleY = None,
      o_width = None, o_height = None, o_fill = None, o_stroke = None,
      o_strokeWidth = None, o_path = JUndef, o_src = None\<rparr>"

text \<open>A field that is absent or holds a finite number.\<close>

fun finiteField :: "jsnum option \<Rightarrow> bool" where
  "finiteField None = True"
| "finiteField (Some (Fin a)) = True"
| "finiteField (Some _) = False"

text \<open>The \<^verbatim>\<open>#RRGGBB\<close> form as the specification has it: two hexadecimal digits a channel.\<close>

definition is_hex :: "char \<Rightarrow> bool" where
  "is_hex c = is_digit_in 16 c"

definition hexByte :: "char \<Rightarrow> char \<Rightarrow> nat" where
  "hexByte a b = 16 * (case digitVal a of None \<Rightarrow> 0 | Some d \<Rightarrow> d)
                 + (case digitVal b of None \<Rightarrow> 0 | Some d \<Rightarrow> d)"

definition is_RRGGBB :: "string \<Rightarrow> bool" where
  "is_RRGGBB s = (length s = 7 \<and> startsWith s ''#'' \<and> list_all is_hex (drop 1 s))"

definition black :: color where
  "black = Color (Fin 0) (Fin 0) (Fin 0)"

text \<open>The font size as the specification words it: the product, clamped to \<open>[6, 72]\<close>.\<close>

definition specFontSize :: "jsnum \<Rightarrow> jsnum \<Rightarrow> jsnum \<Rightarrow> jsnum" where
  "specFontSize baseFontSize manualScaleX manualScaleY =
     Math_max (Fin 6) (Math_min (Fin 72)
       (baseFontSize * jdiv (manualScaleX + manualScaleY) (Fin 2)))"

text \<open>The canonical command stream of the specification's parser example.\<close>

definition canonicalExample :: "tok list" where
  "canonicalExample =
     [Cmd ''M'', Num (Fin 0), Num (Fin 0), Cmd ''L'', Num (Fin 10), Num (Fin 10)]"

text \<open>A key that \<^verbatim>\<open>parseInt\<close> reads as a number, and that number.\<close>

definition numericKey :: "string \<Rightarrow> bool" where
  "numericKey k = (case parseInt k 0 of Fin x \<Rightarrow> True | _ \<Rightarrow> False)"

definition keyNum :: "string \<Rightarrow> real" where
  "keyNum k = (case parseInt k 0 of Fin x \<Rightarrow> x | _ \<Rightarrow> 0)"

text \<open>
  A well-formed canonical stream: every command with the operands it consumes, two for
  \<open>M\<close> and \<open>L\<close>, four for \<open>Q\<close>, six for \<open>C\<close>, none for \<open>Z\<close>. A string that is
  none of the five commands (\<open>H\<close>, \<open>V\<close>, \<open>S\<close>, \<open>T\<close>, \<open>A\<close> or anything else the parser
  lets through) may stand in the stream with any numbers after it.
\<close>

datatype pcmd =
    MoveTo jsnum jsnum
  | LineTo jsnum jsnum
  | QuadTo jsnum jsnum jsnum jsnum
  | CubicTo jsnum jsnum jsnum jsnum jsnum jsnum
  | ClosePath
  | Other string "jsnum list"

fun wellFormed :: "pcmd \<Rightarrow> bool" where
  "wellFormed (Other name operands) =
     (name \<noteq> ''M'' \<and> name \<noteq> ''L'' \<and> name \<noteq> ''Q'' \<and> name \<noteq> ''C'' \<and> name \<noteq> ''Z'')"
| "wellFormed c = True"

fun encode1 :: "pcmd \<Rightarrow> tok list" where
  "encode1 (MoveTo x y) = [Cmd ''M'', Num x, Num y]"
| "encode1 (LineTo x y) = [Cmd ''L'', Num x, Num y]"
| "encode1 (QuadTo cx cy x y) = [Cmd ''Q'', Num cx, Num cy, Num x, Num y]"
| "encode1 (CubicTo c1x c1y c2x c2y x y) =
     [Cmd ''C'', Num c1x, Num c1y, Num c2x, Num c2y, Num x, Num y]"
| "encode1 ClosePath = [Cmd ''Z'']"
| "encode1 (Other name operands) = Cmd name # map Num operands"

definition encode :: "pcmd list \<Rightarrow> tok list" where
  "encode cmds = concat (map encode1 cmds)"

text \<open>
  Step 1 of the specification's algorithm: the minimum over all end points and control
  points, \<^verbatim>\<open>Math.min\<close> folded from \<^verbatim>\<open>Infinity\<close>.
\<close>

fun xCoords :: "pcmd \<Rightarrow> jsnum list" where
  "xCoords (MoveTo x y) = [x]"
| "xCoords (LineTo x y) = [x]"
| "xCoords (QuadTo cx cy x y) = [cx, x]"
| "xCoords (CubicTo c1x c1y c2x c2y x y) = [c1x, c2x, x]"
| "xCoords ClosePath = []"
| "xCoords (Other name operands) = []"

fun yCoords :: "pcmd \<Rightarrow> jsnum list" where
  "yCoords (MoveTo x y) = [y]"
| "yCoords (LineTo x y) = [y]"
| "yCoords (QuadTo cx cy x y) = [cy, y]"
| "yCoords (CubicTo c1x c1y c2x c2y x y) = [c1y, c2y, y]"
| "yCoords ClosePath = []"
| "yCoords (Other name operands) = []"

definition specMinX :: "pcmd list \<Rightarrow> jsnum" where
  "specMinX cmds = foldl Math_min PInf (concat (map xCoords cmds))"

definition specMinY :: "pcmd list \<Rightarrow> jsnum" where
  "specMinY cmds = foldl Math_min PInf (concat (map yCoords cmds))"

text \<open>Step 2: the map of a coordinate of the stream to final draw space.\<close>

definition toDrawSpace :: "objData \<Rightarrow> jsnum \<Rightarrow> jsnum \<Rightarrow> jsnum \<Rightarrow> point \<Rightarrow> point" where
  "toDrawSpace pathData pageHeight minX minY p =
     (let objectLeft = orElse (o_left pathData) (Fin 0);
          objectTop = orElse (o_top pathData) (Fin 0);
          scaleX = orElse (o_scaleX pathData) (Fin 1);
          scaleY = orElse (o_scaleY pathData) (Fin 1);
          px = fst p; py = snd p
      in (objectLeft + (px - minX) * scaleX, pageHeight - (objectTop + (py - minY) * scaleY)))"

fun mapCoords :: "(point \<Rightarrow> point) \<Rightarrow> pcmd \<Rightarrow> pcmd" where
  "mapCoords f (MoveTo x y) = MoveTo (fst (f (x, y))) (snd (f (x, y)))"
| "mapCoords f (LineTo x y) = LineTo (fst (f (x, y))) (snd (f (x, y)))"
| "mapCoords f (QuadTo cx cy x y) =
     QuadTo (fst (f (cx, cy))) (snd (f (cx, cy))) (fst (f (x, y))) (snd (f (x, y)))"
| "mapCoords f (CubicTo c1x c1y c2x c2y x y) =
     CubicTo (fst (f (c1x, c1y))) (snd (f (c1x, c1y))) (fst (f (c2x, c2y))) (snd (f (c2x, c2y)))
             (fst (f (x, y))) (snd (f (x, y)))"
| "mapCoords f ClosePath = ClosePath"
| "mapCoords f (Other name operands) = Other name operands"

text \<open>
  Steps 3 to 7 on commands whose coordinates are already in draw space: the quadratic
  and cubic Bezier blends, sampled at ten steps \<open>0.1, \<dots>, 1\<close> and at eleven steps
  \<open>0, 0.1, \<dots>, 1\<close>. A string that is no command draws nothing.
\<close>

definition tenSteps :: "real list" where
  "tenSteps = map (\<lambda>k. k / 10) [1, 2, 3, 4, 5, 6, 7, 8, 9, 10]"

definition elevenSteps :: "real list" where
  "elevenSteps = map (\<lambda>k. k / 10) [0, 1, 2, 3, 4, 5, 6, 7, 8, 9, 10]"

definition quadBlend :: "jsnum \<Rightarrow> jsnum \<Rightarrow> jsnum \<Rightarrow> real \<Rightarrow> jsnum" where
  "quadBlend p0 p1 p2 t = Fin ((1 - t)\<^sup>2) * p0 + Fin (2 * (1 - t) * t) * p1 + Fin (t\<^sup>2) * p2"

definition cubicBlend :: "jsnum \<Rightarrow> jsnum \<Rightarrow> jsnum \<Rightarrow> jsnum \<Rightarrow> real \<Rightarrow> jsnum" where
  "cubicBlend p0 p1 p2 p3 t =
     Fin ((1 - t) ^ 3) * p0 + Fin (3 * (1 - t)\<^sup>2 * t) * p1 + Fin (3 * (1 - t) * t\<^sup>2) * p2
     + Fin (t ^ 3) * p3"

fun polyStep :: "flat \<Rightarrow> pcmd \<Rightarrow> flat" where
  "polyStep st (MoveTo x y) =
     st\<lparr>pathSegments := (if currentSegment st = [] then pathSegments st
                         else pathSegments st @ [currentSegment st]),
        currentSegment := [(x, y)], currentX := x, currentY := y\<rparr>"
| "polyStep st (LineTo x y) =
     st\<lparr>currentSegment := currentSegment st @ [(x, y)], currentX := x, currentY := y\<rparr>"
| "polyStep st (QuadTo cx cy x y) =
     st\<lparr>currentSegment := currentSegment st @
           map (\<lambda>t. (quadBlend (currentX st) cx x t, quadBlend (currentY st) cy y t)) tenSteps,
        currentX := x, currentY := y\<rparr>"
| "polyStep st (CubicTo c1x c1y c2x c2y x y) =
     st\<lparr>currentSegment := currentSegment st @
           map (\<lambda>t. (cubicBlend (currentX st) c1x c2x x t, cubicBlend (currentY st) c1y c2y y t))
             elevenSteps,
        currentX := x, currentY := y\<rparr>"
| "polyStep st ClosePath =
     (if currentSegment st = [] then st
      else st\<lparr>currentSegment := currentSegment st @ [hd (currentSegment st)]\<rparr>)"
| "polyStep st (Other name operands) = st"

definition specSegments :: "objData \<Rightarrow> jsnum \<Rightarrow> pcmd list \<Rightarrow> point list list" where
  "specSegments pathData pageHeight cmds =
     (let f = toDrawSpace pathData pageHeight (specMinX cmds) (specMinY cmds);
          st = foldl polyStep
                 \<lparr>pathSegments = [], currentSegment = [], currentX = Fin 0, currentY = Fin 0\<rparr>
                 (map (mapCoords f) cmds)
      in if currentSegment st = [] then pathSegments st
         else pathSegments st @ [currentSegment st])"

text \<open>The number of points a command adds to the current polyline.\<close>

fun pointCount :: "pcmd \<Rightarrow> nat" where
  "pointCount (MoveTo x y) = 1"
| "pointCount (LineTo x y) = 1"
| "pointCount (QuadTo cx cy x y) = 10"
| "pointCount (CubicTo c1x c1y c2x c2y x y) = 11"
| "pointCount ClosePath = 1"
| "pointCount (Other name operands) = 0"

text \<open>The coordinate map that the draw loop applies, in terms of its constants.\<close>

definition frameMap :: "frame \<Rightarrow> point \<Rightarrow> point" where
  "frameMap fr p =
     (f_objectLeft fr + (fst p - f_minX fr) * f_scaleX fr,
      f_pageHeight fr - (f_objectTop fr + (snd p - f_minY fr) * f_scaleY fr))"

text \<open>The identity transform: scale 1 on both axes, the object at the origin.\<close>

definition identityObj :: objData where
  "identityObj =
     noFields\<lparr>o_left := Some (Fin 0), o_top := Some (Fin 0),
              o_scaleX := Some (Fin 1), o_scaleY := Some (Fin 1)\<rparr>"

definition totalPoints :: "flat \<Rightarrow> nat" where
  "totalPoints st = sum_list (map length (pathSegments st)) + length (currentSegment st)"

text \<open>A library that accepts every call, and an empty page, for the examples.\<close>

definition acceptAll :: pdflib where
  "acceptAll =
     \<lparr>rgb_ok = (\<lambda>r g b. True), embedFont_ok = True, embedImage_ok = (\<lambda>k s. True),
      draw_ok = (\<lambda>m. True)\<rparr>"

definition blankPage :: page where
  "blankPage = \<lparr>pg_width = Fin 600, pg_height = Fin 800, pg_marks = []\<rparr>"

text \<open>Page \<open>q\<close> is page \<open>p\<close> with further marks drawn on top.\<close>

definition drawnOver :: "page \<Rightarrow> page \<Rightarrow> bool" where
  "drawnOver p q =
     (pg_width q = pg_width p \<and> pg_height q = pg_height p \<and>
      prefix (pg_marks p) (pg_marks q))"

fun pageOf :: "result \<Rightarrow> page" where
  "pageOf (Done p) = p"
| "pageOf (Threw p) = p"

text \<open>
  What a flattening request makes of the bytes it has loaded: the document is parsed, the
  pages are annotated and the result is serialised.
\<close>

definition flattenBytes ::
    "pdflib \<Rightarrow> pdfcodec \<Rightarrow> (string \<Rightarrow> jsnum) \<Rightarrow> bytes \<Rightarrow> modifications \<Rightarrow> exn + bytes" where
  "flattenBytes L C toNumber existingPdfBytes modifications =
     (case io_load C existingPdfBytes of
        None \<Rightarrow> Inl UnableToProcess
      | Some pdfDoc \<Rightarrow>
          (case pagesLoop L toNumber (m_pages modifications)
                  (Object_keys (m_pages modifications)) pdfDoc of
             Inl e \<Rightarrow> Inl e
           | Inr pdfDoc' \<Rightarrow>
               (case io_save C pdfDoc' of None \<Rightarrow> Inl PdfLibError | Some out \<Rightarrow> Inr out)))"

text \<open>
  A page key whose array holds annotations names a page of a document of \<open>n\<close> pages.
\<close>

definition pageKeyOk :: "nat \<Rightarrow> (string \<times> objData option list option) list \<Rightarrow> string \<Rightarrow> bool" where
  "pageKeyOk n pages k =
     (case map_of pages k of
        Some (Some (obj # objs)) \<Rightarrow>
          (case parseInt k 0 - Fin 1 of
             Fin r \<Rightarrow> 0 \<le> r \<and> r < real n \<and> r = real_of_int \<lfloor>r\<rfloor>
           | _ \<Rightarrow> False)
      | _ \<Rightarrow> True)"

text \<open>
  A toy codec and inputs for the examples. A document has one page; each byte of the file
  is a mark of the page, a text of that one character, and the file \<^verbatim>\<open>broken\<close> does not
  parse.
\<close>

fun markChar :: "mark \<Rightarrow> char" where
  "markChar (TextMark s x y sz c) = (case s of [] \<Rightarrow> CHR ''?'' | ch # rest \<Rightarrow> ch)"
| "markChar m = CHR ''#''"

definition toyCodec :: pdfcodec where
  "toyCodec =
     \<lparr>io_load = (\<lambda>b. if b = ''broken'' then None
                      else Some [blankPage\<lparr>pg_marks :=
                             map (\<lambda>ch. TextMark [ch] (Fin 0) (Fin 0) (Fin 0) black) b\<rparr>]),
      io_save = (\<lambda>d. Some (concat (map (\<lambda>pg. map markChar (pg_marks pg)) d)))\<rparr>"

definition textNote :: "string \<Rightarrow> objData" where
  "textNote s = noFields\<lparr>o_type := Some ''i-text'', o_text := Some s\<rparr>"

definition onPage1 :: "objData option list \<Rightarrow> modifications" where
  "onPage1 objs = \<lparr>m_pages = [(''1'', Some objs)]\<rparr>"

section \<open>Properties\<close>

subsection \<open>Color Codec\<close>

lemmas str_defs =
  startsWith_def slice_def is_space_def code_def is_digit_in_def digitVal_def digitsVal_def

lemma parseInt_hex2:
  assumes "is_hex a" "is_hex b"
  shows "parseInt [a, b] 16 = Fin (real (hexByte a b))"
proof -
  have na: "code a \<notin> {9, 10, 11, 12, 13, 32, 160, 43, 45}"
    using assms(1)
    by (auto simp: is_hex_def is_digit_in_def digitVal_def Let_def split: if_splits option.splits)
  have a0: "a = CHR ''0'' \<Longrightarrow> b \<noteq> CHR ''x'' \<and> b \<noteq> CHR ''X''"
    using assms(2)
    by (auto simp: is_hex_def is_digit_in_def digitVal_def code_def Let_def split: if_splits)
  have am: "a \<noteq> CHR ''-''" "a \<noteq> CHR ''+''" using na by (auto simp: code_def)
  have sp: "\<not> is_space a" using na by (simp add: is_space_def)
  show ?thesis
    using assms am sp a0
    by (auto simp: parseInt_def Let_def startsWith_def is_hex_def digitsVal_def hexByte_def
             split: option.splits)
qed

lemma hexByte_le: "is_hex a \<Longrightarrow> is_hex b \<Longrightarrow> hexByte a b \<le> 255"
  by (auto simp: is_hex_def is_digit_in_def hexByte_def split: option.splits)

text \<open>
  What the code does meet of the codec's contract. \<^verbatim>\<open>parseColor\<close> is a total function
  of the string (it raises nothing). A string that does not start with \<^verbatim>\<open>#\<close> (a named
  color, \<^verbatim>\<open>rgb()\<close>, the empty string) gives black. A \<^verbatim>\<open>#\<close> followed by six
  hexadecimal digits is of the \<^verbatim>\<open>#RRGGBB\<close> form and gives, per channel, the value of its
  two digits, an integer of 0 to 255, divided by 255.
\<close>

lemma parseColor_valid_forms:
  "(\<not> startsWith s ''#'' \<longrightarrow> parseColor s = black) \<and>
   (is_hex a \<and> is_hex b \<and> is_hex c \<and> is_hex d \<and> is_hex e \<and> is_hex f \<longrightarrow>
      is_RRGGBB (CHR ''#'' # [a, b, c, d, e, f]) \<and>
      parseColor (CHR ''#'' # [a, b, c, d, e, f]) =
        Color (Fin (real (hexByte a b) / 255)) (Fin (real (hexByte c d) / 255))
              (Fin (real (hexByte e f) / 255)) \<and>
      hexByte a b \<le> 255 \<and> hexByte c d \<le> 255 \<and> hexByte e f \<le> 255)"
  by (simp add: parseColor_def black_def parseInt_hex2 hexByte_le slice_def is_RRGGBB_def
        startsWith_def)

lemma parseColor_valid_forms_examples:
  "\<not> startsWith ''red'' ''#'' \<and> parseColor ''red'' = black \<and>
   is_RRGGBB ''#ff8000'' \<and> parseColor ''#ff8000'' = Color (Fin 1) (Fin (128 / 255)) (Fin 0)"
  using parseColor_valid_forms [of "''red''" "CHR ''f''" "CHR ''f''" "CHR ''8''" "CHR ''0''"
      "CHR ''0''" "CHR ''0''"]
  by (simp add: str_defs is_hex_def hexByte_def)

text \<open>
  Claim C7: every string that is not of the \<^verbatim>\<open>#RRGGBB\<close> form gives black, and every
  channel lies in \<open>[0, 1]\<close>. The code breaks it on malformed strings that start with
  \<^verbatim>\<open>#\<close>, whose digits it never checks. The three-digit form \<^verbatim>\<open>#abc\<close> is not of the
  \<^verbatim>\<open>#RRGGBB\<close> form; it is read as red \<^verbatim>\<open>ab\<close>, green \<^verbatim>\<open>c\<close> and a blue channel
  parsed from the empty string: the result is not black and its blue channel is NaN. The
  eight-digit form \<^verbatim>\<open>#ff8000ff\<close> is not of the form either and is read as \<^verbatim>\<open>#ff8000\<close>,
  not as black.
\<close>

theorem parseColor_malformed_hash_not_black:
  "\<not> is_RRGGBB ''#abc'' \<and> parseColor ''#abc'' \<noteq> black \<and>
   parseColor ''#abc'' = Color (Fin (171 / 255)) (Fin (12 / 255)) NaN \<and>
   \<not> is_RRGGBB ''#ff8000ff'' \<and>
   parseColor ''#ff8000ff'' = Color (Fin 1) (Fin (128 / 255)) (Fin 0)"
  by (simp add: parseColor_def parseInt_def str_defs Let_def is_RRGGBB_def black_def)

subsection \<open>Text font size\<close>

lemma orElse_finite:
  "finiteField v \<Longrightarrow> \<exists>a. orElse v (Fin d) = Fin a \<and> (d \<noteq> 0 \<longrightarrow> a \<noteq> 0)"
  by (cases v rule: finiteField.cases) auto

lemma clamp_Fin: "Math_max (Fin 6) (Math_min (Fin 72) (Fin v)) = Fin (max 6 (min 72 v))"
  by (auto simp: max_def min_def)

text \<open>
  Claim C5, as amended. The font size is the product formula clamped to \<open>[6, 72]\<close>,
  applied to the fields after the defaults of the source: a zero or absent \<^verbatim>\<open>fontSize\<close>
  is read as 20, and a zero or absent manual scale falls back to \<^verbatim>\<open>scaleX\<close> or
  \<^verbatim>\<open>scaleY\<close> and then to 1. When \<^verbatim>\<open>fontSize\<close>, \<^verbatim>\<open>manualScaleX\<close> and
  \<^verbatim>\<open>manualScaleY\<close> are present, finite and not zero, it is the formula on these three
  fields. With finite fields the size always lies in \<open>[6, 72]\<close>. A base size of 100 at scale 1 gives exactly 72, a base size
  of 1 exactly 6.
\<close>

theorem actualFontSize_defaults:
  "actualFontSize t =
     specFontSize (orElse (o_fontSize t) (Fin 20))
       (orElse (o_manualScaleX t) (orElse (o_scaleX t) (Fin 1)))
       (orElse (o_manualScaleY t) (orElse (o_scaleY t) (Fin 1))) \<and>
   (o_fontSize t = Some (Fin f) \<and> f \<noteq> 0 \<and> o_manualScaleX t = Some (Fin mx) \<and> mx \<noteq> 0 \<and>
    o_manualScaleY t = Some (Fin my) \<and> my \<noteq> 0 \<longrightarrow>
      actualFontSize t = specFontSize (Fin f) (Fin mx) (Fin my) \<and>
      actualFontSize t = Fin (max 6 (min 72 (f * ((mx + my) / 2))))) \<and>
   (finiteField (o_fontSize t) \<and> finiteField (o_manualScaleX t) \<and> finiteField (o_manualScaleY t) \<and>
    finiteField (o_scaleX t) \<and> finiteField (o_scaleY t) \<longrightarrow>
      (\<exists>v. actualFontSize t = Fin v \<and> 6 \<le> v \<and> v \<le> 72)) \<and>
   actualFontSize (noFields\<lparr>o_fontSize := Some (Fin 100), o_manualScaleX := Some (Fin 1),
      o_manualScaleY := Some (Fin 1)\<rparr>) = Fin 72 \<and>
   actualFontSize (noFields\<lparr>o_fontSize := Some (Fin 1), o_manualScaleX := Some (Fin 1),
      o_manualScaleY := Some (Fin 1)\<rparr>) = Fin 6"
proof (intro conjI impI)
  show "actualFontSize t =
     specFontSize (orElse (o_fontSize t) (Fin 20))
       (orElse (o_manualScaleX t) (orElse (o_scaleX t) (Fin 1)))
       (orElse (o_manualScaleY t) (orElse (o_scaleY t) (Fin 1)))"
    by (simp add: actualFontSize_def specFontSize_def)
next
  assume h: "o_fontSize t = Some (Fin f) \<and> f \<noteq> 0 \<and> o_manualScaleX t = Some (Fin mx) \<and> mx \<noteq> 0 \<and>
    o_manualScaleY t = Some (Fin my) \<and> my \<noteq> 0"
  then show "actualFontSize t = specFontSize (Fin f) (Fin mx) (Fin my)"
    by (simp add: actualFontSize_def specFontSize_def)
  from h show "actualFontSize t = Fin (max 6 (min 72 (f * ((mx + my) / 2))))"
    by (simp add: actualFontSize_def clamp_Fin)
next
  assume h: "finiteField (o_fontSize t) \<and> finiteField (o_manualScaleX t) \<and> finiteField (o_manualScaleY t) \<and>
    finiteField (o_scaleX t) \<and> finiteField (o_scaleY t)"
  obtain b where b: "orElse (o_fontSize t) (Fin 20) = Fin b"
    using h orElse_finite by blast
  obtain sx0 where sx0: "orElse (o_scaleX t) (Fin 1) = Fin sx0" "sx0 \<noteq> 0"
    using h orElse_finite [of "o_scaleX t" 1] by auto
  obtain sy0 where sy0: "orElse (o_scaleY t) (Fin 1) = Fin sy0" "sy0 \<noteq> 0"
    using h orElse_finite [of "o_scaleY t" 1] by auto
  obtain sx where sx: "orElse (o_manualScaleX t) (Fin sx0) = Fin sx"
    using h orElse_finite by blast
  obtain sy where sy: "orElse (o_manualScaleY t) (Fin sy0) = Fin sy"
    using h orElse_finite by blast
  have "actualFontSize t = Fin (max 6 (min 72 (b * ((sx + sy) / 2))))"
    by (simp add: actualFontSize_def b sx0 sy0 sx sy clamp_Fin)
  then show "\<exists>v. actualFontSize t = Fin v \<and> 6 \<le> v \<and> v \<le> 72"
    by auto
next
  show "actualFontSize (noFields\<lparr>o_fontSize := Some (Fin 100), o_manualScaleX := Some (Fin 1),
      o_manualScaleY := Some (Fin 1)\<rparr>) = Fin 72"
    by (simp add: actualFontSize_def noFields_def)
  show "actualFontSize (noFields\<lparr>o_fontSize := Some (Fin 1), o_manualScaleX := Some (Fin 1),
      o_manualScaleY := Some (Fin 1)\<rparr>) = Fin 6"
    by (simp add: actualFontSize_def noFields_def)
qed

theorem actualFontSize_defaults_witness:
  "actualFontSize (noFields\<lparr>o_fontSize := Some (Fin 10), o_manualScaleX := Some (Fin 2),
      o_manualScaleY := Some (Fin 4)\<rparr>) = Fin 30 \<and>
   (\<exists>v. actualFontSize noFields = Fin v \<and> 6 \<le> v \<and> v \<le> 72)"
  using actualFontSize_defaults [of "noFields\<lparr>o_fontSize := Some (Fin 10), o_manualScaleX := Some (Fin 2),
      o_manualScaleY := Some (Fin 4)\<rparr>" 10 2 4]
    actualFontSize_defaults [of noFields]
  by (simp add: noFields_def specFontSize_def)

text \<open>
  Claim C5 as stated fails at a base size of 0: the product clamps to 6, the source
  replaces the 0 with its default 20 and renders at 20. It fails as well at manual scales
  of 0: the source takes \<^verbatim>\<open>scaleX\<close> and \<^verbatim>\<open>scaleY\<close> in their place.
\<close>

theorem actualFontSize_zero_counterexample:
  "actualFontSize (noFields\<lparr>o_fontSize := Some (Fin 0), o_manualScaleX := Some (Fin 1),
      o_manualScaleY := Some (Fin 1)\<rparr>) = Fin 20 \<and>
   specFontSize (Fin 0) (Fin 1) (Fin 1) = Fin 6 \<and>
   actualFontSize (noFields\<lparr>o_fontSize := Some (Fin 10), o_manualScaleX := Some (Fin 0),
      o_manualScaleY := Some (Fin 0), o_scaleX := Some (Fin 3), o_scaleY := Some (Fin 3)\<rparr>) = Fin 30 \<and>
   specFontSize (Fin 10) (Fin 0) (Fin 0) = Fin 6"
  by (simp add: actualFontSize_def specFontSize_def noFields_def)

subsection \<open>Image placement\<close>

lemma orElse_cases: "orElse v (Fin d) = PInf \<or> orElse v (Fin d) = NInf \<or> (\<exists>a. orElse v (Fin d) = Fin a)"
  by (cases v; cases "the v") auto

lemma clamp0: "\<exists>a. Math_max (Fin 0) (Math_min x (Fin m)) = Fin a \<and> 0 \<le> a \<and> (a \<le> m \<or> a = 0)" if "x \<noteq> NaN"
  using that by (cases x) auto

lemma sub_notNaN: "x \<noteq> NaN \<Longrightarrow> Fin a - x - Fin b \<noteq> NaN"
  by (cases x) (auto simp: minus_jsnum_def)

text \<open>
  Claim C6, as amended. The position is clamped on each axis on its own. When the scaled
  image is no larger than the page (\<open>0 \<le> w \<le> W\<close> and \<open>0 \<le> h \<le> H\<close>) its footprint
  lies within \<open>[0, W] \<times> [0, H]\<close>. An image wider (taller) than the page is placed with
  its left (lower) edge at 0 and is not rescaled.
\<close>

theorem imagePlacement_fits_when_smaller:
  assumes "p = imagePlacement imageData (Fin W) (Fin H)"
  shows "(pl_width p = Fin w \<and> pl_height p = Fin h \<and> 0 \<le> w \<and> w \<le> W \<and> 0 \<le> h \<and> h \<le> H \<longrightarrow>
            (\<exists>x y. pl_x p = Fin x \<and> pl_y p = Fin y \<and>
                   0 \<le> x \<and> x + w \<le> W \<and> 0 \<le> y \<and> y + h \<le> H)) \<and>
         (pl_width p = Fin w \<and> W < w \<longrightarrow> pl_x p = Fin 0) \<and>
         (pl_height p = Fin h \<and> H < h \<longrightarrow> pl_y p = Fin 0)"
proof -
  define x where "x = orElse (o_left imageData) (Fin 0)"
  define tp where "tp = orElse (o_top imageData) (Fin 0)"
  have xn: "x \<noteq> NaN" and tn: "tp \<noteq> NaN"
    using orElse_cases [of "o_left imageData" 0] orElse_cases [of "o_top imageData" 0]
    by (auto simp: x_def tp_def)
  have px: "pl_x p = Math_max (Fin 0) (Math_min x (Fin W - pl_width p))"
    and py: "pl_y p = Math_max (Fin 0) (Math_min (Fin H - tp - pl_height p) (Fin H - pl_height p))"
    by (simp_all add: assms imagePlacement_def Let_def x_def tp_def)
  show ?thesis
  proof (intro conjI impI)
    assume a: "pl_width p = Fin w \<and> pl_height p = Fin h \<and> 0 \<le> w \<and> w \<le> W \<and> 0 \<le> h \<and> h \<le> H"
    obtain xa where xa: "pl_x p = Fin xa" "0 \<le> xa" "xa \<le> W - w \<or> xa = 0"
      using clamp0 [OF xn, of "W - w"] a px by (auto simp: minus_jsnum_def)
    obtain ya where ya: "pl_y p = Fin ya" "0 \<le> ya" "ya \<le> H - h \<or> ya = 0"
      using clamp0 [OF sub_notNaN [OF tn], of H h "H - h"] a py by (auto simp: minus_jsnum_def)
    show "\<exists>x y. pl_x p = Fin x \<and> pl_y p = Fin y \<and> 0 \<le> x \<and> x + w \<le> W \<and> 0 \<le> y \<and> y + h \<le> H"
      using xa ya a by auto
  next
    assume a: "pl_width p = Fin w \<and> W < w"
    then show "pl_x p = Fin 0"
      using px xn by (cases x) (auto simp: minus_jsnum_def)
  next
    assume a: "pl_height p = Fin h \<and> H < h"
    then show "pl_y p = Fin 0"
      using py sub_notNaN [OF tn, of H h] by (cases "Fin H - tp - Fin h") (auto simp: minus_jsnum_def)
  qed
qed

theorem imagePlacement_fits_when_smaller_witness:
  "pl_x (imagePlacement (noFields\<lparr>o_width := Some (Fin 50), o_height := Some (Fin 20),
       o_left := Some (Fin 90), o_top := Some (Fin 95)\<rparr>) (Fin 100) (Fin 100)) = Fin 50 \<and>
   pl_y (imagePlacement (noFields\<lparr>o_width := Some (Fin 50), o_height := Some (Fin 20),
       o_left := Some (Fin 90), o_top := Some (Fin 95)\<rparr>) (Fin 100) (Fin 100)) = Fin 0 \<and>
   pl_x (imagePlacement (noFields\<lparr>o_width := Some (Fin 200), o_height := Some (Fin 200),
       o_left := Some (Fin 100)\<rparr>) (Fin 100) (Fin 100)) = Fin 0"
  using imagePlacement_fits_when_smaller [OF refl, of "noFields\<lparr>o_width := Some (Fin 50), o_height := Some (Fin 20),
       o_left := Some (Fin 90), o_top := Some (Fin 95)\<rparr>" 100 100 50 20]
    imagePlacement_fits_when_smaller [OF refl, of "noFields\<lparr>o_width := Some (Fin 200), o_height := Some (Fin 200),
       o_left := Some (Fin 100)\<rparr>" 100 100 200 200]
  by (simp add: imagePlacement_def noFields_def minus_jsnum_def Let_def)

text \<open>
  Claim C6 as stated fails for an image wider than the page: width 200 on a page of width
  100, placed at \<open>left = 100\<close>, is drawn from \<open>x = 0\<close> to \<open>x = 200\<close>.
\<close>

theorem imagePlacement_wide_counterexample:
  "imagePlacement (noFields\<lparr>o_width := Some (Fin 200), o_left := Some (Fin 100)\<rparr>) (Fin 100) (Fin 100)
     = \<lparr>pl_x = Fin 0, pl_y = Fin 40, pl_width = Fin 200, pl_height = Fin 60\<rparr> \<and>
   \<not> jle (Fin 0 + Fin 200) (Fin 100)"
  by (simp add: imagePlacement_def noFields_def minus_jsnum_def Let_def)

subsection \<open>Path Command Parser\<close>

lemma insertKey_mset: "mset (insertKey a bs) = add_mset a (mset bs)"
  by (induction bs) auto

lemma sortKeys_mset: "mset (sortKeys ks) = mset ks"
  by (induction ks) (auto simp: sortKeys_def insertKey_mset)

lemma Object_keys_mset: "mset (Object_keys kvs) = mset (map fst kvs)"
  by (simp add: Object_keys_def Let_def)

lemma cmp_numeric:
  "numericKey a \<Longrightarrow> numericKey b \<Longrightarrow>
   jlt (Fin 0) (parseInt a 0 - parseInt b 0) = (keyNum b < keyNum a)"
  by (auto simp: numericKey_def keyNum_def minus_jsnum_def split: jsnum.splits)

lemma insertKey_sorted:
  "numericKey a \<Longrightarrow> list_all numericKey bs \<Longrightarrow> sorted (map keyNum bs) \<Longrightarrow>
   sorted (map keyNum (insertKey a bs))"
proof (induction bs)
  case Nil
  then show ?case by simp
next
  case (Cons b bs)
  have s: "set (insertKey a bs) = insert a (set bs)"
    using insertKey_mset [of a bs] by (metis set_mset_add_mset_insert set_mset_mset)
  show ?case
    using Cons by (auto simp: cmp_numeric s)
qed

lemma sortKeys_sorted: "list_all numericKey ks \<Longrightarrow> sorted (map keyNum (sortKeys ks))"
proof (induction ks)
  case Nil
  then show ?case by (simp add: sortKeys_def)
next
  case (Cons k ks)
  have "list_all numericKey (sortKeys ks)"
    using Cons.prems sortKeys_mset [of ks]
    by (metis list_all_iff list.pred_inject(2) set_mset_mset)
  then show ?case
    using Cons insertKey_sorted [of k "sortKeys ks"] by (simp add: sortKeys_def)
qed

lemma ex_string: "parseSVGPath (JStr ''M 0 0 L 10 10'') = Inr canonicalExample"
  by code_simp

lemma ex_array: "parseSVGPath (JArr [JArr [JStr ''M'', JNum (Fin 0), JNum (Fin 0)],
        JArr [JStr ''L'', JNum (Fin 10), JNum (Fin 10)]]) = Inr canonicalExample"
  by code_simp

lemma keys_example:
  "sortKeys (Object_keys [(''1'', x), (''0'', y)]) = [''0'', ''1'']"
proof -
  have "Object_keys [(''1'', x), (''0'', y)] = [''0'', ''1'']"
    by (simp add: Object_keys_def is_arrayIndex_def is_dec_def str_defs)
  moreover have "sortKeys [''0'', ''1''] = [''0'', ''1'']"
    by (simp add: sortKeys_def parseInt_def str_defs minus_jsnum_def Let_def)
  ultimately show ?thesis by simp
qed

lemma ex_keyed: "parseSVGPath (JObj [(''1'', JArr [JStr ''L'', JNum (Fin 10), JNum (Fin 10)]),
        (''0'', JArr [JStr ''M'', JNum (Fin 0), JNum (Fin 0)])]) = Inr canonicalExample"
  by (simp add: parseSVGPath_def keys_example getProp_def canonicalExample_def toUpperCase_def
        upperChar_def code_def)

text \<open>
  Claim C2. The string \<^verbatim>\<open>"M 0 0 L 10 10"\<close>, the array of tuples
  \<^verbatim>\<open>[["M",0,0],["L",10,10]]\<close> and the keyed object
  \<^verbatim>\<open>{"1":["L",10,10],"0":["M",0,0]}\<close> are parsed to the same canonical stream
  \<^verbatim>\<open>["M",0,0,"L",10,10]\<close>. For every keyed object whose keys are numbers, the tuples
  are processed as the array form of its values taken in ascending order of the keys
  read as integers, whatever the order of creation.
\<close>

theorem parseSVGPath_three_dialects:
  "parseSVGPath (JStr ''M 0 0 L 10 10'') = Inr canonicalExample \<and>
   parseSVGPath (JArr [JArr [JStr ''M'', JNum (Fin 0), JNum (Fin 0)],
        JArr [JStr ''L'', JNum (Fin 10), JNum (Fin 10)]]) = Inr canonicalExample \<and>
   parseSVGPath (JObj [(''1'', JArr [JStr ''L'', JNum (Fin 10), JNum (Fin 10)]),
        (''0'', JArr [JStr ''M'', JNum (Fin 0), JNum (Fin 0)])]) = Inr canonicalExample \<and>
   (list_all numericKey (map fst kvs) \<longrightarrow>
      (\<exists>ks. mset ks = mset (map fst kvs) \<and> sorted (map keyNum ks) \<and>
            parseSVGPath (JObj kvs) = parseSVGPath (JArr (map (getProp kvs) ks))))"
proof -
  have "list_all numericKey (map fst kvs) \<Longrightarrow>
      (\<exists>ks. mset ks = mset (map fst kvs) \<and> sorted (map keyNum ks) \<and>
            parseSVGPath (JObj kvs) = parseSVGPath (JArr (map (getProp kvs) ks)))"
  proof -
    assume a: "list_all numericKey (map fst kvs)"
    let ?ks = "sortKeys (Object_keys kvs)"
    have m: "mset ?ks = mset (map fst kvs)"
      by (simp add: sortKeys_mset Object_keys_mset)
    have "list_all numericKey (Object_keys kvs)"
      using a Object_keys_mset [of kvs] by (metis list_all_iff set_mset_mset)
    then have "sorted (map keyNum ?ks)" by (rule sortKeys_sorted)
    moreover have "parseSVGPath (JObj kvs) = parseSVGPath (JArr (map (getProp kvs) ?ks))"
      by (simp add: parseSVGPath_def)
    ultimately show ?thesis using m by blast
  qed
  then show ?thesis using ex_string ex_array ex_keyed by blast
qed

theorem parseSVGPath_three_dialects_witness:
  "list_all numericKey (map fst [(''10'', JArr [JStr ''l'']), (''9'', JArr [JStr ''m''])]) \<and>
   (\<exists>ks. mset ks = mset [''10'', ''9''] \<and> sorted (map keyNum ks) \<and>
      parseSVGPath (JObj [(''10'', JArr [JStr ''l'']), (''9'', JArr [JStr ''m''])]) =
      parseSVGPath (JArr (map (getProp [(''10'', JArr [JStr ''l'']), (''9'', JArr [JStr ''m''])]) ks)))"
proof -
  have n: "list_all numericKey (map fst [(''10'', JArr [JStr ''l'']), (''9'', JArr [JStr ''m''])])"
    by (simp add: numericKey_def parseInt_def str_defs Let_def)
  show ?thesis
    using n parseSVGPath_three_dialects [of "[(''10'', JArr [JStr ''l'']), (''9'', JArr [JStr ''m''])]"]
    by simp
qed

text \<open>
  Claim C8. The empty string, \<^verbatim>\<open>null\<close>, an absent value, the empty object, the empty
  array, and the values of a type the parser does not know (numbers, booleans) are
  parsed to the empty canonical stream; none of them raises.
\<close>

theorem parseSVGPath_empty_inputs:
  "parseSVGPath (JStr []) = Inr [] \<and> parseSVGPath JNull = Inr [] \<and>
   parseSVGPath JUndef = Inr [] \<and> parseSVGPath (JObj []) = Inr [] \<and>
   parseSVGPath (JArr []) = Inr [] \<and> parseSVGPath (JNum n) = Inr [] \<and>
   parseSVGPath (JBool b) = Inr []"
  by (simp add: parseSVGPath_def sortKeys_def Object_keys_def)

theorem parseSVGPath_empty_inputs_witness:
  "parseSVGPath (JNum (Fin 5)) = Inr [] \<and> parseSVGPath (JBool True) = Inr []"
  using parseSVGPath_empty_inputs [of "Fin 5" True] by simp

subsection \<open>Curve Flattener\<close>

lemma tLoop_vals:
  "tLoop (1 / 10) = tenSteps" "tLoop 0 = elevenSteps"
proof -
  have t11: "tLoop (11 / 10) = []" by (simp add: tLoop.simps [of "11 / 10"])
  have t10: "tLoop 1 = [1]" using t11 by (simp add: tLoop.simps [of 1])
  have t9: "tLoop (9 / 10) = [9 / 10, 1]" using t10 by (simp add: tLoop.simps [of "9 / 10"])
  have t8: "tLoop (4 / 5) = [4 / 5, 9 / 10, 1]" using t9 by (simp add: tLoop.simps [of "4 / 5"])
  have t7: "tLoop (7 / 10) = [7 / 10, 4 / 5, 9 / 10, 1]"
    using t8 by (simp add: tLoop.simps [of "7 / 10"])
  have t6: "tLoop (3 / 5) = [3 / 5, 7 / 10, 4 / 5, 9 / 10, 1]"
    using t7 by (simp add: tLoop.simps [of "3 / 5"])
  have t5: "tLoop (1 / 2) = [1 / 2, 3 / 5, 7 / 10, 4 / 5, 9 / 10, 1]"
    using t6 by (simp add: tLoop.simps [of "1 / 2"])
  have t4: "tLoop (2 / 5) = [2 / 5, 1 / 2, 3 / 5, 7 / 10, 4 / 5, 9 / 10, 1]"
    using t5 by (simp add: tLoop.simps [of "2 / 5"])
  have t3: "tLoop (3 / 10) = [3 / 10, 2 / 5, 1 / 2, 3 / 5, 7 / 10, 4 / 5, 9 / 10, 1]"
    using t4 by (simp add: tLoop.simps [of "3 / 10"])
  have t2: "tLoop (1 / 5) = [1 / 5, 3 / 10, 2 / 5, 1 / 2, 3 / 5, 7 / 10, 4 / 5, 9 / 10, 1]"
    using t3 by (simp add: tLoop.simps [of "1 / 5"])
  have t1: "tLoop (1 / 10) = [1 / 10, 1 / 5, 3 / 10, 2 / 5, 1 / 2, 3 / 5, 7 / 10, 4 / 5, 9 / 10, 1]"
    using t2 by (simp add: tLoop.simps [of "1 / 10"])
  show "tLoop (1 / 10) = tenSteps" using t1 by (simp add: tenSteps_def)
  show "tLoop 0 = elevenSteps" using t1 by (simp add: tLoop.simps [of 0] elevenSteps_def)
qed

lemma encode_Cons: "encode (c # cs) = encode1 c @ encode cs"
  by (simp add: encode_def)

lemma encode_Nil: "encode [] = []"
  by (simp add: encode_def)

lemma bboxLoop_skip: "bboxLoop toNumber (map Num ns @ ts) b = bboxLoop toNumber ts b"
  by (induction ns) simp_all

lemma drawLoop_skip: "drawLoop toNumber fr (map Num ns @ ts) st = drawLoop toNumber fr ts st"
  by (induction ns) simp_all

lemma bboxLoop_encode:
  "list_all wellFormed cmds \<Longrightarrow>
   b_minX (bboxLoop toNumber (encode cmds) b) = foldl Math_min (b_minX b) (concat (map xCoords cmds)) \<and>
   b_minY (bboxLoop toNumber (encode cmds) b) = foldl Math_min (b_minY b) (concat (map yCoords cmds))"
proof (induction cmds arbitrary: b)
  case Nil
  show ?case by (simp add: encode_Nil)
next
  case (Cons c cs)
  then have ih: "\<And>b. b_minX (bboxLoop toNumber (encode cs) b) = foldl Math_min (b_minX b) (concat (map xCoords cs))"
      "\<And>b. b_minY (bboxLoop toNumber (encode cs) b) = foldl Math_min (b_minY b) (concat (map yCoords cs))"
    by simp_all
  show ?case
  proof (cases c)
    case (Other name operands)
    then have "bboxStep toNumber name (map Num operands @ encode cs) b = (0, b)"
      using Cons.prems by (simp add: bboxStep_def)
    then show ?thesis
      using Other by (simp add: encode_Cons bboxLoop_skip ih)
  qed (simp_all add: Let_def encode_Cons bboxStep_def operand_def ih)
qed

lemma drawLoop_encode1:
  "wellFormed c \<Longrightarrow>
   drawLoop toNumber fr (encode1 c @ ts) st
     = drawLoop toNumber fr ts (polyStep st (mapCoords (frameMap fr) c))"
proof (cases c)
  case (MoveTo x y)
  then show ?thesis
    by (simp add: Let_def drawStep_def operand_def frameMap_def)
next
  case (LineTo x y)
  then show ?thesis
    by (simp add: Let_def drawStep_def operand_def frameMap_def)
next
  case (QuadTo cx cy x y)
  then show ?thesis
    by (simp add: Let_def drawStep_def operand_def frameMap_def tenSteps_def quadBlend_def
          power2_eq_square)
next
  case (CubicTo c1x c1y c2x c2y x y)
  then show ?thesis
    by (simp add: Let_def drawStep_def operand_def frameMap_def elevenSteps_def cubicBlend_def)
next
  case ClosePath
  then show ?thesis
    by (simp add: Let_def drawStep_def)
next
  case (Other name operands)
  assume "wellFormed c"
  then have "drawStep toNumber fr name (map Num operands @ ts) st = (0, st)"
    using Other by (simp add: drawStep_def)
  then show ?thesis
    using Other by (simp add: drawLoop_skip)
qed

lemma drawLoop_encode_app:
  "list_all wellFormed cmds \<Longrightarrow>
   drawLoop toNumber fr (encode cmds @ ts) st
     = drawLoop toNumber fr ts (foldl polyStep st (map (mapCoords (frameMap fr)) cmds))"
proof (induction cmds arbitrary: st)
  case Nil
  show ?case by (simp add: encode_Nil)
next
  case (Cons c cs)
  have "drawLoop toNumber fr (encode (c # cs) @ ts) st
        = drawLoop toNumber fr (encode1 c @ (encode cs @ ts)) st"
    by (simp add: encode_Cons)
  also have "\<dots> = drawLoop toNumber fr (encode cs @ ts) (polyStep st (mapCoords (frameMap fr) c))"
    using Cons.prems by (simp add: drawLoop_encode1)
  also have "\<dots> = drawLoop toNumber fr ts
       (foldl polyStep (polyStep st (mapCoords (frameMap fr) c)) (map (mapCoords (frameMap fr)) cs))"
    using Cons.prems by (simp add: Cons.IH)
  finally show ?case by simp
qed

lemma drawLoop_encode:
  "list_all wellFormed cmds \<Longrightarrow>
   drawLoop toNumber fr (encode cmds) st = foldl polyStep st (map (mapCoords (frameMap fr)) cmds)"
  using drawLoop_encode_app [of cmds toNumber fr "[]" st] by simp

lemma Math_min_Fin: "Math_min (Fin a) (Fin b) = Fin (min a b)"
  by (simp add: min_def)

lemma foldl_min_Fin: "foldl Math_min (Fin m) (map Fin rs) = Fin (Min (insert m (set rs)))"
proof (induction rs arbitrary: m)
  case Nil
  show ?case by simp
next
  case (Cons r rs)
  have "foldl Math_min (Fin m) (map Fin (r # rs)) = foldl Math_min (Fin (min m r)) (map Fin rs)"
    by (simp add: min_def)
  also have "\<dots> = Fin (Min (insert (min m r) (set rs)))"
    by (rule Cons.IH)
  also have "Min (insert (min m r) (set rs)) = Min (insert m (set (r # rs)))"
    by (cases "set rs = {}") (simp_all add: min.assoc)
  finally show ?case .
qed

lemma foldl_min_PInf: "rs \<noteq> [] \<Longrightarrow> foldl Math_min PInf (map Fin rs) = Fin (Min (set rs))"
  by (cases rs) (simp_all add: foldl_min_Fin)

lemma collectSegments_encode:
  assumes "list_all wellFormed cmds"
  shows "collectSegments toNumber (encode cmds) pathData pageHeight
           = specSegments pathData pageHeight cmds"
proof -
  have fm: "frameMap \<lparr>f_scaleX = orElse (o_scaleX pathData) (Fin 1),
              f_scaleY = orElse (o_scaleY pathData) (Fin 1),
              f_objectLeft = orElse (o_left pathData) (Fin 0),
              f_objectTop = orElse (o_top pathData) (Fin 0),
              f_minX = specMinX cmds, f_minY = specMinY cmds, f_pageHeight = pageHeight\<rparr>
            = toDrawSpace pathData pageHeight (specMinX cmds) (specMinY cmds)"
    by (rule ext) (simp add: frameMap_def toDrawSpace_def)
  show ?thesis
    by (simp add: collectSegments_def specSegments_def Let_def bboxLoop_encode [OF assms]
          drawLoop_encode [OF assms] specMinX_def [symmetric] specMinY_def [symmetric] fm)
qed

text \<open>
  Claim C1. On every well-formed canonical stream, whatever the numbers in it and
  whatever strings that are no command stand between its commands, the segments that \<^verbatim>\<open>drawSVGPathCommands\<close> collects are those obtained by first mapping
  every coordinate pair of the stream, end points and control points of \<open>M\<close>, \<open>L\<close>,
  \<open>Q\<close> and \<open>C\<close> alike, through
  \<open>x = objectLeft + (px - minX) * scaleX\<close>, \<open>y = pageHeight - (objectTop + (py - minY) * scaleY)\<close>
  and then building the polylines; \<open>(minX, minY)\<close> is the minimum over all those
  coordinates, computed before anything is mapped. For finite coordinates it is their
  least element. Here \<open>objectLeft\<close>, \<open>objectTop\<close>, \<open>scaleX\<close> and \<open>scaleY\<close> are the
  constants of lines 324-327: the fields of the object, an absent or zero field
  replaced by 0 for the position and by 1 for the scale.
\<close>

theorem collectSegments_maps_every_coordinate:
  assumes "list_all wellFormed cmds"
  shows
  "collectSegments toNumber (encode cmds) pathData pageHeight = specSegments pathData pageHeight cmds \<and>
   drawnSegments toNumber (encode cmds) pathData pageHeight =
     filter (\<lambda>s. 2 \<le> length s) (specSegments pathData pageHeight cmds) \<and>
   (concat (map xCoords cmds) = map Fin xs \<and> xs \<noteq> [] \<longrightarrow> specMinX cmds = Fin (Min (set xs))) \<and>
   (concat (map yCoords cmds) = map Fin ys \<and> ys \<noteq> [] \<longrightarrow> specMinY cmds = Fin (Min (set ys)))"
proof -
  have "(\<lambda>segment::point list. 1 < length segment) = (\<lambda>s. 2 \<le> length s)"
    by (rule ext) auto
  then show ?thesis
    by (simp add: drawnSegments_def collectSegments_encode [OF assms] specMinX_def specMinY_def
          foldl_min_PInf)
qed

theorem collectSegments_maps_every_coordinate_witness:
  "list_all wellFormed [MoveTo (Fin 10) (Fin 20), Other ''H'' [Fin 7], LineTo (Fin 30) (Fin 50)] \<and>
   concat (map xCoords [MoveTo (Fin 10) (Fin 20), QuadTo (Fin 4) (Fin 50) (Fin 30) (Fin 8)])
     = map Fin [10, 4, 30] \<and>
   specMinX [MoveTo (Fin 10) (Fin 20), QuadTo (Fin 4) (Fin 50) (Fin 30) (Fin 8)] = Fin 4 \<and>
   specMinY [MoveTo (Fin 10) (Fin 20), QuadTo (Fin 4) (Fin 50) (Fin 30) (Fin 8)] = Fin 8 \<and>
   collectSegments (\<lambda>s. NaN)
      [Cmd ''M'', Num (Fin 10), Num (Fin 20), Cmd ''H'', Num (Fin 7),
       Cmd ''L'', Num (Fin 30), Num (Fin 50)]
      (noFields\<lparr>o_left := Some (Fin 100), o_top := Some (Fin 200), o_scaleX := Some (Fin 2)\<rparr>)
      (Fin 800)
     = [[(Fin 100, Fin 600), (Fin 140, Fin 570)]]"
proof -
  have w1: "list_all wellFormed [MoveTo (Fin 10) (Fin 20), Other ''H'' [Fin 7], LineTo (Fin 30) (Fin 50)]"
    and w2: "list_all wellFormed [MoveTo (Fin 10) (Fin 20), QuadTo (Fin 4) (Fin 50) (Fin 30) (Fin 8)]"
    by simp_all
  have e: "encode [MoveTo (Fin 10) (Fin 20), Other ''H'' [Fin 7], LineTo (Fin 30) (Fin 50)]
      = [Cmd ''M'', Num (Fin 10), Num (Fin 20), Cmd ''H'', Num (Fin 7),
         Cmd ''L'', Num (Fin 30), Num (Fin 50)]"
    by (simp add: encode_def)
  show ?thesis
    using collectSegments_maps_every_coordinate [OF w1, of "\<lambda>s. NaN"
        "noFields\<lparr>o_left := Some (Fin 100), o_top := Some (Fin 200), o_scaleX := Some (Fin 2)\<rparr>"
        "Fin 800" "[10, 30]" "[20, 50]"]
      collectSegments_maps_every_coordinate [OF w2, of "\<lambda>s. NaN" noFields "Fin 0"
        "[10, 4, 30]" "[20, 50, 8]"]
    by (simp add: e specSegments_def toDrawSpace_def noFields_def minus_jsnum_def Let_def)
qed

lemma polyStep_count:
  "currentSegment st \<noteq> [] \<Longrightarrow>
   totalPoints (polyStep st c) = totalPoints st + pointCount c \<and> currentSegment (polyStep st c) \<noteq> []"
  by (cases c) (simp_all add: totalPoints_def tenSteps_def elevenSteps_def)

lemma pointCount_mapCoords: "pointCount (mapCoords f c) = pointCount c"
  by (cases c) simp_all

lemma foldl_polyStep_count:
  "currentSegment st \<noteq> [] \<Longrightarrow>
   totalPoints (foldl polyStep st cs) = totalPoints st + sum_list (map pointCount cs) \<and>
   currentSegment (foldl polyStep st cs) \<noteq> []"
proof (induction cs arbitrary: st)
  case Nil
  then show ?case by simp
next
  case (Cons c cs)
  from polyStep_count [OF Cons.prems, of c] Cons.IH [of "polyStep st c"]
  show ?case by simp
qed

lemma collect_count:
  assumes "list_all wellFormed cs"
  shows "sum_list (map length
            (collectSegments toNumber (encode (MoveTo x0 y0 # cs)) pathData pageHeight))
         = sum_list (map pointCount (MoveTo x0 y0 # cs))"
proof -
  let ?f = "toDrawSpace pathData pageHeight (specMinX (MoveTo x0 y0 # cs)) (specMinY (MoveTo x0 y0 # cs))"
  let ?st0 = "\<lparr>pathSegments = [], currentSegment = [], currentX = Fin 0, currentY = Fin 0\<rparr>"
  let ?st1 = "polyStep ?st0 (mapCoords ?f (MoveTo x0 y0))"
  let ?st = "foldl polyStep ?st1 (map (mapCoords ?f) cs)"
  have w: "list_all wellFormed (MoveTo x0 y0 # cs)" using assms by simp
  have s1: "currentSegment ?st1 \<noteq> []" "totalPoints ?st1 = 1"
    by (simp_all add: totalPoints_def)
  have c: "totalPoints ?st = 1 + sum_list (map pointCount cs)" "currentSegment ?st \<noteq> []"
    using foldl_polyStep_count [OF s1(1), of "map (mapCoords ?f) cs"] s1(2)
    by (simp_all add: o_def pointCount_mapCoords)
  have "collectSegments toNumber (encode (MoveTo x0 y0 # cs)) pathData pageHeight
        = pathSegments ?st @ [currentSegment ?st]"
    using c(2) by (simp add: collectSegments_encode [OF w] specSegments_def Let_def)
  then show ?thesis using c(1) by (simp add: totalPoints_def)
qed

lemma drawLoop_split:
  assumes "list_all wellFormed pre" "wellFormed c"
  shows "drawLoop toNumber fr (encode (pre @ c # post)) st
     = drawLoop toNumber fr (encode post)
         (polyStep (drawLoop toNumber fr (encode pre) st) (mapCoords (frameMap fr) c))"
proof -
  have w: "list_all wellFormed (pre @ [c])" using assms by simp
  have "encode (pre @ c # post) = encode (pre @ [c]) @ encode post"
    by (simp add: encode_def)
  then show ?thesis
    using drawLoop_encode_app [OF w, of toNumber fr "encode post" st]
      drawLoop_encode [OF assms(1), of toNumber fr st]
    by simp
qed

text \<open>
  Rounding does not change the number of samples. In binary64 the literal \<^verbatim>\<open>0.1\<close> is
  \<open>tenth64\<close>, the loop from \<^verbatim>\<open>0.1\<close> visits 10 values and the loop from 0 visits 11, the
  last one \<open>1 - 2\<^sup>-\<^sup>5\<^sup>3\<close> in both: the exact counter \<open>tLoop\<close> of the model and the
  counter of the program run the same number of times, and the last sample is taken
  within one rounding error of \<open>t = 1\<close>.
\<close>

lemma tLoop64_counts:
  "round64 (1 / 10) = Some tenth64 \<and>
   map_option length (tLoop64 12 tenth64) = Some 10 \<and>
   map_option length (tLoop64 12 0) = Some 11 \<and>
   map_option last (tLoop64 12 tenth64) = Some (1 - 1 / 2 ^ 53) \<and>
   map_option last (tLoop64 12 0) = Some (1 - 1 / 2 ^ 53)"
  by code_simp

text \<open>
  Claim C3. Wherever it stands in a stream that is well formed up to it, a \<open>Q\<close> command appends exactly
  10 points to the current polyline, the quadratic blend of the current point, the mapped
  control point and the mapped end point at \<open>t = 0.1, 0.2, \<dots>, 1\<close>, and a \<open>C\<close> command
  exactly 11, the cubic blend at \<open>t = 0, 0.1, \<dots>, 1\<close>; nothing else changes but the
  current point. For a well-formed stream that starts with \<open>M\<close>, the segments hold one point for
  each \<open>M\<close>, \<open>L\<close> and \<open>Z\<close>, 10 for each \<open>Q\<close> and 11 for each \<open>C\<close>. The quadratic
  from \<open>(0,0)\<close> to \<open>(10,0)\<close> with control point \<open>(5,10)\<close>, under the identity
  transform and page height 0, is drawn as one polyline of 11 points: the move point and
  the 10 samples.
\<close>

theorem drawLoop_curve_point_counts:
  assumes "list_all wellFormed pre" "list_all wellFormed cs"
  shows
  "length tenSteps = 10 \<and> length elevenSteps = 11 \<and>
   drawLoop toNumber fr (encode (pre @ QuadTo cx cy x y # post)) st =
     (let s = drawLoop toNumber fr (encode pre) st;
          cp = frameMap fr (cx, cy);
          p = frameMap fr (x, y)
      in drawLoop toNumber fr (encode post)
           (s\<lparr>currentSegment := currentSegment s @
                  map (\<lambda>t. (quadBlend (currentX s) (fst cp) (fst p) t,
                            quadBlend (currentY s) (snd cp) (snd p) t)) tenSteps,
               currentX := fst p, currentY := snd p\<rparr>)) \<and>
   drawLoop toNumber fr (encode (pre @ CubicTo c1x c1y c2x c2y x y # post)) st =
     (let s = drawLoop toNumber fr (encode pre) st;
          cp1 = frameMap fr (c1x, c1y);
          cp2 = frameMap fr (c2x, c2y);
          p = frameMap fr (x, y)
      in drawLoop toNumber fr (encode post)
           (s\<lparr>currentSegment := currentSegment s @
                  map (\<lambda>t. (cubicBlend (currentX s) (fst cp1) (fst cp2) (fst p) t,
                            cubicBlend (currentY s) (snd cp1) (snd cp2) (snd p) t)) elevenSteps,
               currentX := fst p, currentY := snd p\<rparr>)) \<and>
   sum_list (map length (collectSegments toNumber (encode (MoveTo x0 y0 # cs)) pathData pageHeight))
     = sum_list (map pointCount (MoveTo x0 y0 # cs)) \<and>
   drawnSegments toNumber (encode [MoveTo (Fin 0) (Fin 0), QuadTo (Fin 5) (Fin 10) (Fin 10) (Fin 0)])
       identityObj (Fin 0) =
     [[(Fin 0, Fin 0), (Fin 1, Fin (- 9 / 5)), (Fin 2, Fin (- 16 / 5)), (Fin 3, Fin (- 21 / 5)),
       (Fin 4, Fin (- 24 / 5)), (Fin 5, Fin (- 5)), (Fin 6, Fin (- 24 / 5)),
       (Fin 7, Fin (- 21 / 5)), (Fin 8, Fin (- 16 / 5)), (Fin 9, Fin (- 9 / 5)), (Fin 10, Fin 0)]]"
proof (intro conjI)
  show "length tenSteps = 10" "length elevenSteps = 11"
    by (simp_all add: tenSteps_def elevenSteps_def)
  show "drawLoop toNumber fr (encode (pre @ QuadTo cx cy x y # post)) st =
     (let s = drawLoop toNumber fr (encode pre) st;
          cp = frameMap fr (cx, cy);
          p = frameMap fr (x, y)
      in drawLoop toNumber fr (encode post)
           (s\<lparr>currentSegment := currentSegment s @
                  map (\<lambda>t. (quadBlend (currentX s) (fst cp) (fst p) t,
                            quadBlend (currentY s) (snd cp) (snd p) t)) tenSteps,
               currentX := fst p, currentY := snd p\<rparr>))"
    by (simp add: drawLoop_split [OF assms(1)] Let_def)
  show "drawLoop toNumber fr (encode (pre @ CubicTo c1x c1y c2x c2y x y # post)) st =
     (let s = drawLoop toNumber fr (encode pre) st;
          cp1 = frameMap fr (c1x, c1y);
          cp2 = frameMap fr (c2x, c2y);
          p = frameMap fr (x, y)
      in drawLoop toNumber fr (encode post)
           (s\<lparr>currentSegment := currentSegment s @
                  map (\<lambda>t. (cubicBlend (currentX s) (fst cp1) (fst cp2) (fst p) t,
                            cubicBlend (currentY s) (snd cp1) (snd cp2) (snd p) t)) elevenSteps,
               currentX := fst p, currentY := snd p\<rparr>))"
    by (simp add: drawLoop_split [OF assms(1)] Let_def)
  show "sum_list (map length (collectSegments toNumber (encode (MoveTo x0 y0 # cs)) pathData pageHeight))
     = sum_list (map pointCount (MoveTo x0 y0 # cs))"
    by (rule collect_count [OF assms(2)])
  have w: "list_all wellFormed [MoveTo (Fin 0) (Fin 0), QuadTo (Fin 5) (Fin 10) (Fin 10) (Fin 0)]"
    by simp
  show "drawnSegments toNumber (encode [MoveTo (Fin 0) (Fin 0), QuadTo (Fin 5) (Fin 10) (Fin 10) (Fin 0)])
       identityObj (Fin 0) =
     [[(Fin 0, Fin 0), (Fin 1, Fin (- 9 / 5)), (Fin 2, Fin (- 16 / 5)), (Fin 3, Fin (- 21 / 5)),
       (Fin 4, Fin (- 24 / 5)), (Fin 5, Fin (- 5)), (Fin 6, Fin (- 24 / 5)),
       (Fin 7, Fin (- 21 / 5)), (Fin 8, Fin (- 16 / 5)), (Fin 9, Fin (- 9 / 5)), (Fin 10, Fin 0)]]"
    by (simp add: drawnSegments_def collectSegments_encode [OF w] specSegments_def specMinX_def
          specMinY_def toDrawSpace_def identityObj_def noFields_def Let_def tenSteps_def
          quadBlend_def minus_jsnum_def power2_eq_square)
qed

theorem drawLoop_curve_point_counts_witness:
  "list_all wellFormed [MoveTo (Fin 0) (Fin 0), Other ''H'' []] \<and>
   list_all wellFormed [LineTo (Fin 1) (Fin 1), CubicTo (Fin 0) (Fin 0) (Fin 1) (Fin 1) (Fin 2) (Fin 2),
      QuadTo (Fin 5) (Fin 10) (Fin 10) (Fin 0), ClosePath] \<and>
   sum_list (map length (collectSegments (\<lambda>s. NaN)
      [Cmd ''M'', Num (Fin 0), Num (Fin 0), Cmd ''L'', Num (Fin 1), Num (Fin 1),
       Cmd ''C'', Num (Fin 0), Num (Fin 0), Num (Fin 1), Num (Fin 1), Num (Fin 2), Num (Fin 2),
       Cmd ''Q'', Num (Fin 5), Num (Fin 10), Num (Fin 10), Num (Fin 0), Cmd ''Z'']
      identityObj (Fin 0))) = 24 \<and>
   length (currentSegment (drawLoop (\<lambda>s. NaN)
      \<lparr>f_scaleX = Fin 1, f_scaleY = Fin 1, f_objectLeft = Fin 0, f_objectTop = Fin 0,
       f_minX = Fin 0, f_minY = Fin 0, f_pageHeight = Fin 0\<rparr>
      (encode ([MoveTo (Fin 0) (Fin 0), Other ''H'' []] @ QuadTo (Fin 5) (Fin 10) (Fin 10) (Fin 0) # []))
      \<lparr>pathSegments = [], currentSegment = [], currentX = Fin 0, currentY = Fin 0\<rparr>)) = 11"
proof -
  let ?fr = "\<lparr>f_scaleX = Fin 1, f_scaleY = Fin 1, f_objectLeft = Fin 0, f_objectTop = Fin 0,
       f_minX = Fin 0, f_minY = Fin 0, f_pageHeight = Fin 0\<rparr>"
  let ?st = "\<lparr>pathSegments = [], currentSegment = [], currentX = Fin 0, currentY = Fin 0\<rparr>"
  have w1: "list_all wellFormed [MoveTo (Fin 0) (Fin 0), Other ''H'' []]"
    and w2: "list_all wellFormed [LineTo (Fin 1) (Fin 1),
      CubicTo (Fin 0) (Fin 0) (Fin 1) (Fin 1) (Fin 2) (Fin 2),
      QuadTo (Fin 5) (Fin 10) (Fin 10) (Fin 0), ClosePath]"
    by simp_all
  have e: "encode (MoveTo (Fin 0) (Fin 0) # [LineTo (Fin 1) (Fin 1),
      CubicTo (Fin 0) (Fin 0) (Fin 1) (Fin 1) (Fin 2) (Fin 2),
      QuadTo (Fin 5) (Fin 10) (Fin 10) (Fin 0), ClosePath])
     = [Cmd ''M'', Num (Fin 0), Num (Fin 0), Cmd ''L'', Num (Fin 1), Num (Fin 1),
       Cmd ''C'', Num (Fin 0), Num (Fin 0), Num (Fin 1), Num (Fin 1), Num (Fin 2), Num (Fin 2),
       Cmd ''Q'', Num (Fin 5), Num (Fin 10), Num (Fin 10), Num (Fin 0), Cmd ''Z'']"
    by (simp add: encode_def)
  have pre: "drawLoop (\<lambda>s. NaN) ?fr (encode [MoveTo (Fin 0) (Fin 0), Other ''H'' []]) ?st
      = ?st\<lparr>currentSegment := [(Fin 0, Fin 0)]\<rparr>"
    by (simp add: encode_def drawStep_def operand_def Let_def minus_jsnum_def)
  from drawLoop_curve_point_counts [OF w1 w2, where toNumber = "\<lambda>s. NaN" and fr = ?fr
      and cx = "Fin 5" and cy = "Fin 10" and x = "Fin 10" and y = "Fin 0" and post = "[]"
      and st = ?st and ?x0.0 = "Fin 0" and ?y0.0 = "Fin 0" and pathData = identityObj
      and pageHeight = "Fin 0"]
  show ?thesis
    by (simp add: e pre encode_Nil Let_def tenSteps_def)
qed

subsection \<open>Page Flattening Orchestrator\<close>

lemma drawnOver_refl: "drawnOver p p"
  by (simp add: drawnOver_def)

lemma drawnOver_trans: "drawnOver p q \<Longrightarrow> drawnOver q r \<Longrightarrow> drawnOver p r"
  by (auto simp: drawnOver_def)

lemma drawnOver_addMark: "drawnOver p (addMark m p)"
  by (simp add: drawnOver_def addMark_def)

lemma drawLines_over: "drawnOver page (drawLines L color w points page)"
proof (induction L color w points page rule: drawLines.induct)
  case (1 L color strokeWidth p q points page)
  then show ?case
    by (auto simp: drawnOver_refl intro: drawnOver_trans [OF drawnOver_addMark])
qed (simp_all add: drawnOver_refl)

lemma segments_over:
  "drawnOver page (foldl (\<lambda>pg segment. drawPathSegment L segment color w pg) page segs)"
proof (induction segs arbitrary: page)
  case Nil
  show ?case by (simp add: drawnOver_refl)
next
  case (Cons s segs)
  have "drawnOver page (drawPathSegment L s color w page)"
    by (simp add: drawPathSegment_def drawnOver_refl drawLines_over)
  then show ?case using Cons [of "drawPathSegment L s color w page"]
    by (auto intro: drawnOver_trans)
qed

lemma bbox_over: "drawnOver page (pageOf (renderPathBoundingBox L d W H color w page))"
  by (auto simp: renderPathBoundingBox_def Let_def drawnOver_refl drawnOver_addMark split: option.splits)

lemma svg_over: "drawnOver page (pageOf (renderSVGPath L tn d W H color w page))"
  by (auto simp: renderSVGPath_def drawSVGPathCommands_def drawnOver_refl segments_over bbox_over
           split: sum.splits result.splits if_splits)

lemma path_done: "addPathToPage L tn d W H page \<noteq> Threw q"
  by (simp add: addPathToPage_def Let_def split: result.splits)

lemma path_over: "drawnOver page (pageOf (addPathToPage L tn d W H page))"
proof -
  have "pageOf (addPathToPage L tn d W H page) =
        pageOf (if hasPathData (o_path d)
               then renderSVGPath L tn d W H (parseColor (orElseS (o_stroke d) ''#000000'')) (orElse (o_strokeWidth d) (Fin 2)) page
               else renderPathBoundingBox L d W H (parseColor (orElseS (o_stroke d) ''#000000'')) (orElse (o_strokeWidth d) (Fin 2)) page)"
    by (simp add: addPathToPage_def Let_def split: result.splits)
  then show ?thesis by (simp add: svg_over bbox_over)
qed

lemma placeholder_over: "drawnOver page (pageOf (renderSignaturePlaceholder L x y w h page))"
  by (auto simp: renderSignaturePlaceholder_def Let_def drawnOver_refl drawnOver_addMark
           intro: drawnOver_trans [OF drawnOver_addMark drawnOver_addMark])

lemma sigimage_over: "drawnOver page (pageOf (renderSignatureImage L d x y w h page))"
  by (auto simp: renderSignatureImage_def Let_def drawnOver_refl drawnOver_addMark placeholder_over
           split: result.splits)

lemma image_done: "addImageToPage L d W H page \<noteq> Threw q"
  by (simp add: addImageToPage_def Let_def split: result.splits)

lemma image_over: "drawnOver page (pageOf (addImageToPage L d W H page))"
proof -
  let ?pl = "imagePlacement d W H"
  have "pageOf (addImageToPage L d W H page) = pageOf (renderSignatureImage L d (pl_x ?pl) (pl_y ?pl) (pl_width ?pl) (pl_height ?pl) page)
      \<or> pageOf (addImageToPage L d W H page) = pageOf (renderSignaturePlaceholder L (pl_x ?pl) (pl_y ?pl) (pl_width ?pl) (pl_height ?pl) page)"
    by (simp add: addImageToPage_def Let_def split: result.splits)
  then show ?thesis using sigimage_over placeholder_over by metis
qed

lemma text_over: "drawnOver page (pageOf (addTextToPage L d W H page))"
  by (simp add: addTextToPage_def Let_def drawnOver_refl drawnOver_addMark)

lemma text_threw: "addTextToPage L d W H page = Threw q \<Longrightarrow> q = page"
  by (simp add: addTextToPage_def Let_def split: if_splits)

lemma render_over: "drawnOver page (pageOf (renderAnnotation L tn W H objData page))"
  by (simp add: renderAnnotation_def drawnOver_refl text_over path_over image_over split: option.splits)

lemma render_threw: "renderAnnotation L tn W H objData page = Threw q \<Longrightarrow> q = page"
  by (auto simp: renderAnnotation_def path_done image_done split: option.splits if_splits
           dest: text_threw)

lemma loop_step:
  "annotationLoop L tn W H (objData # objs) page =
   annotationLoop L tn W H objs (pageOf (renderAnnotation L tn W H objData page))"
  by (simp split: result.splits)

lemma loop_done: "\<exists>p. annotationLoop L tn W H objs page = Done p \<and> drawnOver page p"
proof (induction objs arbitrary: page)
  case Nil
  show ?case by (simp add: drawnOver_refl)
next
  case (Cons objData objs)
  obtain p where "annotationLoop L tn W H objs (pageOf (renderAnnotation L tn W H objData page)) = Done p"
    "drawnOver (pageOf (renderAnnotation L tn W H objData page)) p"
    using Cons by blast
  then show ?case
    unfolding loop_step
    using render_over [of page L tn W H objData] by (blast intro: drawnOver_trans)
qed

lemma loop_append:
  "annotationLoop L tn W H (xs @ ys) page = annotationLoop L tn W H ys (pageOf (annotationLoop L tn W H xs page))"
  by (induction xs arbitrary: page) (simp_all split: result.splits)

text \<open>
  Claim C4. For every page, library behaviour and sequence of annotations,
  \<^verbatim>\<open>addAnnotationsToPage\<close> returns normally, on the page with further marks drawn on top
  of those it had: no exception escapes. The annotations are processed in order, those
  of \<open>ys\<close> on the page left by those of \<open>xs\<close>. An annotation \<open>b\<close> whose rendering
  throws leaves no mark, and the others are rendered as if \<open>b\<close> were not in the
  sequence; with \<open>xs\<close> and \<open>ys\<close> of one element each, this is the page of three
  annotations of which the second throws.
\<close>

theorem addAnnotationsToPage_isolates_faults:
  "(\<exists>p. addAnnotationsToPage L tn page objs = Done p \<and> drawnOver page p) \<and>
   addAnnotationsToPage L tn page (xs @ ys) =
     annotationLoop L tn (pg_width page) (pg_height page) ys (pageOf (addAnnotationsToPage L tn page xs)) \<and>
   (addAnnotationsToPage L tn page xs = Done p1 \<and>
    renderAnnotation L tn (pg_width page) (pg_height page) b p1 = Threw p2 \<longrightarrow>
      p2 = p1 \<and>
      addAnnotationsToPage L tn page (xs @ b # ys) = addAnnotationsToPage L tn page (xs @ ys))"
proof (intro conjI impI)
  show "\<exists>p. addAnnotationsToPage L tn page objs = Done p \<and> drawnOver page p"
    using loop_done by (simp add: addAnnotationsToPage_def Let_def)
  show "addAnnotationsToPage L tn page (xs @ ys) =
     annotationLoop L tn (pg_width page) (pg_height page) ys (pageOf (addAnnotationsToPage L tn page xs))"
    by (simp add: addAnnotationsToPage_def Let_def loop_append)
next
  assume a: "addAnnotationsToPage L tn page xs = Done p1 \<and>
    renderAnnotation L tn (pg_width page) (pg_height page) b p1 = Threw p2"
  then show "p2 = p1" using render_threw by blast
  with a show "addAnnotationsToPage L tn page (xs @ b # ys) = addAnnotationsToPage L tn page (xs @ ys)"
    by (simp add: addAnnotationsToPage_def Let_def loop_append)
qed

theorem addAnnotationsToPage_isolates_faults_witness:
  "renderAnnotation acceptAll (\<lambda>s. NaN) (Fin 600) (Fin 800) None
     (pageOf (addAnnotationsToPage acceptAll (\<lambda>s. NaN) blankPage [Some (noFields\<lparr>o_type := Some ''i-text'', o_text := Some ''A''\<rparr>)]))
    = Threw (blankPage\<lparr>pg_marks := [TextMark ''A'' (Fin 0) (Fin (7826 / 10)) (Fin 20) black]\<rparr>) \<and>
   addAnnotationsToPage acceptAll (\<lambda>s. NaN) blankPage
     [Some (noFields\<lparr>o_type := Some ''i-text'', o_text := Some ''A''\<rparr>), None,
      Some (noFields\<lparr>o_type := Some ''i-text'', o_text := Some ''B'', o_top := Some (Fin 100)\<rparr>)]
    = Done (blankPage\<lparr>pg_marks := [TextMark ''A'' (Fin 0) (Fin (7826 / 10)) (Fin 20) black,
                                    TextMark ''B'' (Fin 0) (Fin (6826 / 10)) (Fin 20) black]\<rparr>)"
proof -
  let ?a = "Some (noFields\<lparr>o_type := Some ''i-text'', o_text := Some ''A''\<rparr>)"
  let ?c = "Some (noFields\<lparr>o_type := Some ''i-text'', o_text := Some ''B'', o_top := Some (Fin 100)\<rparr>)"
  let ?pa = "blankPage\<lparr>pg_marks := [TextMark ''A'' (Fin 0) (Fin (7826 / 10)) (Fin 20) black]\<rparr>"
  have ev: "parseColor ''#000000'' = black" "trim ''A'' = ''A''" "trim ''B'' = ''B''"
    by (simp_all add: parseColor_def parseInt_def str_defs Let_def black_def trim_def)
  have a: "addAnnotationsToPage acceptAll (\<lambda>s. NaN) blankPage [?a] = Done ?pa"
    by (simp add: addAnnotationsToPage_def renderAnnotation_def addTextToPage_def Let_def ev
          actualFontSize_def noFields_def acceptAll_def blankPage_def addMark_def minus_jsnum_def)
  have b: "renderAnnotation acceptAll (\<lambda>s. NaN) (pg_width blankPage) (pg_height blankPage) None ?pa = Threw ?pa"
    by (simp add: renderAnnotation_def)
  have ac: "addAnnotationsToPage acceptAll (\<lambda>s. NaN) blankPage ([?a] @ [?c])
    = Done (blankPage\<lparr>pg_marks := [TextMark ''A'' (Fin 0) (Fin (7826 / 10)) (Fin 20) black,
                                    TextMark ''B'' (Fin 0) (Fin (6826 / 10)) (Fin 20) black]\<rparr>)"
    by (simp add: addAnnotationsToPage_def renderAnnotation_def addTextToPage_def Let_def ev
          actualFontSize_def noFields_def acceptAll_def blankPage_def addMark_def minus_jsnum_def)
  show ?thesis
    using addAnnotationsToPage_isolates_faults [of acceptAll "\<lambda>s. NaN" blankPage "[]" "[?a]" "[?c]" ?pa None ?pa]
      a b ac
    by (simp add: blankPage_def)
qed

subsection \<open>Document load and save\<close>

lemma loadPdf_filled: "fs (fileId @ ''_filled.pdf'') = Some (File b) \<Longrightarrow> loadPdf fs fileId = Inr b"
  by (simp add: loadPdf_def stat_def readFile_def)

lemma loadPdf_fallback:
  "fs (fileId @ ''_filled.pdf'') = None \<or> fs (fileId @ ''_filled.pdf'') = Some Dir \<Longrightarrow>
   loadPdf fs fileId = readFile fs (fileId @ ''.pdf'')"
  by (auto simp: loadPdf_def stat_def)

lemma loadPdf_faulty: "fs (fileId @ ''_filled.pdf'') = Some Faulty \<Longrightarrow> loadPdf fs fileId = Inl EOTHER"
  by (simp add: loadPdf_def stat_def)

lemma save_flatten:
  "savePdfWithChanges L C tn fs fileId mods =
     (case loadPdf fs fileId of
        Inl e \<Rightarrow> (Inl (FsError e), fs)
      | Inr b \<Rightarrow>
          (case flattenBytes L C tn b mods of
             Inl e \<Rightarrow> (Inl e, fs)
           | Inr out \<Rightarrow>
               (case writeFile fs (fileId @ ''_filled.pdf'') out of
                  Inl e \<Rightarrow> (Inl (FsError e), fs)
                | Inr fs' \<Rightarrow> (Inr (fileId @ ''_filled''), fs'))))"
  by (simp add: savePdfWithChanges_def flattenBytes_def split: sum.splits option.splits)

lemma add_done: "\<exists>p. addAnnotationsToPage L tn page objs = Done p"
  using loop_done by (simp add: addAnnotationsToPage_def Let_def) blast

lemma pagesLoop_ok:
  "list_all (pageKeyOk (length pdfDoc) pages) keys \<Longrightarrow>
   \<exists>d. pagesLoop L tn pages keys pdfDoc = Inr d \<and> length d = length pdfDoc"
proof (induction keys arbitrary: pdfDoc)
  case Nil
  show ?case by simp
next
  case (Cons k keys)
  show ?case
  proof (cases "map_of pages k")
    case None
    then show ?thesis using Cons by simp
  next
    case (Some v)
    show ?thesis
    proof (cases v)
      case None
      then show ?thesis using Some Cons by simp
    next
      case (Some objs)
      show ?thesis
      proof (cases objs)
        case Nil
        then show ?thesis using Some \<open>map_of pages k = Some v\<close> Cons by simp
      next
        case (Cons obj objs')
        from Cons.prems Cons Some \<open>map_of pages k = Some v\<close>
        obtain r where r: "parseInt k 0 - Fin 1 = Fin r" "0 \<le> r" "r < real (length pdfDoc)"
            "r = real_of_int \<lfloor>r\<rfloor>"
          by (auto simp: pageKeyOk_def split: jsnum.splits)
        obtain p where p: "addAnnotationsToPage L tn (pdfDoc ! nat \<lfloor>r\<rfloor>) (obj # objs') = Done p"
          using add_done by blast
        have "list_all (pageKeyOk (length (pdfDoc[nat \<lfloor>r\<rfloor> := p])) pages) keys"
          using Cons.prems by simp
        from Cons.IH [OF this] show ?thesis
          using r p Cons Some \<open>map_of pages k = Some v\<close> by (simp add: getPage_def)
      qed
    qed
  qed
qed

lemma pagesLoop_no_render_error: "pagesLoop L tn pages keys pdfDoc \<noteq> Inl RenderError"
proof (induction keys arbitrary: pdfDoc)
  case Nil
  show ?case by simp
next
  case (Cons k keys)
  show ?case
    using Cons add_done
    by (auto simp: Let_def split: option.splits list.splits result.splits prod.splits)
       (metis result.distinct(1))+
qed


lemma writeFile_ok:
  "fs path \<noteq> Some Dir \<Longrightarrow> fs path \<noteq> Some Faulty \<Longrightarrow>
   writeFile fs path out = Inr (fs(path \<mapsto> File out))"
  by (auto simp: writeFile_def split: option.splits node.splits)

lemma writeFile_Inr: "writeFile fs path out = Inr fs' \<Longrightarrow> fs' = fs(path \<mapsto> File out)"
  by (auto simp: writeFile_def split: option.splits node.splits)

text \<open>
  Claim C9. When \<^verbatim>\<open>loadPdf\<close> fails, the request fails with that error, and when the
  bytes do not parse, with \<^verbatim>\<open>Unable to process PDF\<close>; the file system is left as it
  was. More generally a request that fails writes nothing, and it never fails for an
  exception raised while an annotation is rendered. When the document loads and every
  page key with annotations names one of its pages, the page loop completes whatever the
  annotations and the drawing library do, and the request succeeds as soon as the
  document serialises and the output file can be written.
\<close>

theorem savePdfWithChanges_load_failure_is_fatal:
  "(loadPdf fs fileId = Inl e \<longrightarrow>
      savePdfWithChanges L C tn fs fileId mods = (Inl (FsError e), fs)) \<and>
   (loadPdf fs fileId = Inr b \<and> io_load C b = None \<longrightarrow>
      savePdfWithChanges L C tn fs fileId mods = (Inl UnableToProcess, fs)) \<and>
   (fst (savePdfWithChanges L C tn fs fileId mods) = Inl err \<longrightarrow>
      snd (savePdfWithChanges L C tn fs fileId mods) = fs \<and> err \<noteq> RenderError) \<and>
   (loadPdf fs fileId = Inr b \<and> io_load C b = Some pdfDoc \<and>
    list_all (pageKeyOk (length pdfDoc) (m_pages mods)) (Object_keys (m_pages mods)) \<longrightarrow>
      (\<exists>d. pagesLoop L tn (m_pages mods) (Object_keys (m_pages mods)) pdfDoc = Inr d \<and>
           (io_save C d = Some out \<and> fs (fileId @ ''_filled.pdf'') \<noteq> Some Dir \<and>
            fs (fileId @ ''_filled.pdf'') \<noteq> Some Faulty \<longrightarrow>
              savePdfWithChanges L C tn fs fileId mods =
                (Inr (fileId @ ''_filled''), fs(fileId @ ''_filled.pdf'' \<mapsto> File out)))))"
proof (intro conjI impI)
  assume "loadPdf fs fileId = Inl e"
  then show "savePdfWithChanges L C tn fs fileId mods = (Inl (FsError e), fs)"
    by (simp add: savePdfWithChanges_def)
next
  assume "loadPdf fs fileId = Inr b \<and> io_load C b = None"
  then show "savePdfWithChanges L C tn fs fileId mods = (Inl UnableToProcess, fs)"
    by (simp add: savePdfWithChanges_def)
next
  assume a: "fst (savePdfWithChanges L C tn fs fileId mods) = Inl err"
  then show "snd (savePdfWithChanges L C tn fs fileId mods) = fs"
    by (auto simp: savePdfWithChanges_def split: sum.splits option.splits)
  from a show "err \<noteq> RenderError"
    using pagesLoop_no_render_error [of L tn "m_pages mods" "Object_keys (m_pages mods)"]
    by (auto simp: savePdfWithChanges_def split: sum.splits option.splits)
next
  assume a: "loadPdf fs fileId = Inr b \<and> io_load C b = Some pdfDoc \<and>
    list_all (pageKeyOk (length pdfDoc) (m_pages mods)) (Object_keys (m_pages mods))"
  then obtain d where d: "pagesLoop L tn (m_pages mods) (Object_keys (m_pages mods)) pdfDoc = Inr d"
    using pagesLoop_ok by blast
  have "io_save C d = Some out \<and> fs (fileId @ ''_filled.pdf'') \<noteq> Some Dir \<and>
        fs (fileId @ ''_filled.pdf'') \<noteq> Some Faulty \<longrightarrow>
          savePdfWithChanges L C tn fs fileId mods =
            (Inr (fileId @ ''_filled''), fs(fileId @ ''_filled.pdf'' \<mapsto> File out))"
    using a d by (simp add: savePdfWithChanges_def writeFile_ok)
  with d show "\<exists>d. pagesLoop L tn (m_pages mods) (Object_keys (m_pages mods)) pdfDoc = Inr d \<and>
           (io_save C d = Some out \<and> fs (fileId @ ''_filled.pdf'') \<noteq> Some Dir \<and>
            fs (fileId @ ''_filled.pdf'') \<noteq> Some Faulty \<longrightarrow>
              savePdfWithChanges L C tn fs fileId mods =
                (Inr (fileId @ ''_filled''), fs(fileId @ ''_filled.pdf'' \<mapsto> File out)))"
    by blast
qed

text \<open>
  Claim C10. \<^verbatim>\<open>loadPdf\<close> returns the bytes of \<^verbatim>\<open>{fileId}_filled.pdf\<close> whenever that
  file exists, and reads \<^verbatim>\<open>{fileId}.pdf\<close> when no entry of that name exists. After a
  successful \<^verbatim>\<open>savePdfWithChanges\<close>, \<^verbatim>\<open>loadPdf\<close> returns the bytes that call wrote,
  and a second call on the same file id flattens its annotations onto those bytes, not
  onto the original document.
\<close>

theorem loadPdf_prefers_filled:
  "(fs (fileId @ ''_filled.pdf'') = Some (File b) \<longrightarrow> loadPdf fs fileId = Inr b) \<and>
   (fs (fileId @ ''_filled.pdf'') = None \<longrightarrow> loadPdf fs fileId = readFile fs (fileId @ ''.pdf'')) \<and>
   (savePdfWithChanges L C tn fs fileId mods1 = (Inr r, fs1) \<longrightarrow>
      (\<exists>b0 out1. loadPdf fs fileId = Inr b0 \<and> flattenBytes L C tn b0 mods1 = Inr out1 \<and>
          fs1 = fs(fileId @ ''_filled.pdf'' \<mapsto> File out1) \<and> loadPdf fs1 fileId = Inr out1 \<and>
          savePdfWithChanges L' C' tn' fs1 fileId mods2 =
            (case flattenBytes L' C' tn' out1 mods2 of
               Inl e \<Rightarrow> (Inl e, fs1)
             | Inr out2 \<Rightarrow>
                 (Inr (fileId @ ''_filled''), fs1(fileId @ ''_filled.pdf'' \<mapsto> File out2)))))"
proof (intro conjI impI)
  assume "fs (fileId @ ''_filled.pdf'') = Some (File b)"
  then show "loadPdf fs fileId = Inr b" by (rule loadPdf_filled)
next
  assume "fs (fileId @ ''_filled.pdf'') = None"
  then show "loadPdf fs fileId = readFile fs (fileId @ ''.pdf'')" by (simp add: loadPdf_fallback)
next
  assume a: "savePdfWithChanges L C tn fs fileId mods1 = (Inr r, fs1)"
  then obtain b0 out1 where
    b0: "loadPdf fs fileId = Inr b0" and f: "flattenBytes L C tn b0 mods1 = Inr out1" and
    w: "writeFile fs (fileId @ ''_filled.pdf'') out1 = Inr fs1"
    by (auto simp: save_flatten split: sum.splits)
  have fs1: "fs1 = fs(fileId @ ''_filled.pdf'' \<mapsto> File out1)"
    using w by (rule writeFile_Inr)
  then have l1: "loadPdf fs1 fileId = Inr out1"
    by (simp add: loadPdf_filled)
  have "writeFile fs1 (fileId @ ''_filled.pdf'') out2 = Inr (fs1(fileId @ ''_filled.pdf'' \<mapsto> File out2))"
    for out2
    using fs1 by (simp add: writeFile_ok)
  then have "savePdfWithChanges L' C' tn' fs1 fileId mods2 =
            (case flattenBytes L' C' tn' out1 mods2 of
               Inl e \<Rightarrow> (Inl e, fs1)
             | Inr out2 \<Rightarrow>
                 (Inr (fileId @ ''_filled''), fs1(fileId @ ''_filled.pdf'' \<mapsto> File out2)))"
    by (simp add: save_flatten l1 split: sum.splits)
  with b0 f fs1 l1 show "\<exists>b0 out1. loadPdf fs fileId = Inr b0 \<and> flattenBytes L C tn b0 mods1 = Inr out1 \<and>
          fs1 = fs(fileId @ ''_filled.pdf'' \<mapsto> File out1) \<and> loadPdf fs1 fileId = Inr out1 \<and>
          savePdfWithChanges L' C' tn' fs1 fileId mods2 =
            (case flattenBytes L' C' tn' out1 mods2 of
               Inl e \<Rightarrow> (Inl e, fs1)
             | Inr out2 \<Rightarrow>
                 (Inr (fileId @ ''_filled''), fs1(fileId @ ''_filled.pdf'' \<mapsto> File out2)))"
    by blast
qed


lemma flatten_example:
  "\<not> is_space ch \<Longrightarrow>
   flattenBytes acceptAll toyCodec (\<lambda>s. NaN) bs (onPage1 [None, Some (textNote [ch])])
     = (if bs = ''broken'' then Inl UnableToProcess else Inr (bs @ [ch]))"
proof -
  have ev: "parseColor ''#000000'' = black" "trim [ch] = (if is_space ch then [] else [ch])"
    by (simp_all add: parseColor_def parseInt_def str_defs Let_def black_def trim_def)
  have k: "Object_keys [(''1'', v)] = [''1'']" for v :: "objData option list option"
    by (simp add: Object_keys_def is_arrayIndex_def is_dec_def str_defs)
  have i: "parseInt ''1'' 0 - Fin 1 = Fin 0"
    by (simp add: parseInt_def str_defs Let_def minus_jsnum_def)
  assume "\<not> is_space ch"
  then show ?thesis
    by (simp add: flattenBytes_def toyCodec_def onPage1_def k i getPage_def Let_def
          addAnnotationsToPage_def renderAnnotation_def addTextToPage_def textNote_def ev
          actualFontSize_def noFields_def acceptAll_def blankPage_def addMark_def o_def)
qed


lemma pageKey_example:
  "list_all (pageKeyOk (Suc 0) (m_pages (onPage1 (obj # objs)))) (Object_keys (m_pages (onPage1 (obj # objs))))"
proof -
  have k: "Object_keys [(''1'', v)] = [''1'']" for v :: "objData option list option"
    by (simp add: Object_keys_def is_arrayIndex_def is_dec_def str_defs)
  have i: "parseInt ''1'' 0 - Fin 1 = Fin 0"
    by (simp add: parseInt_def str_defs Let_def minus_jsnum_def)
  show ?thesis by (simp add: onPage1_def k i pageKeyOk_def)
qed

theorem savePdfWithChanges_load_failure_is_fatal_witness:
  "loadPdf Map.empty ''doc'' = Inl ENOENT \<and>
   savePdfWithChanges acceptAll toyCodec (\<lambda>s. NaN) Map.empty ''doc'' (onPage1 [None, Some (textNote ''X'')])
     = (Inl (FsError ENOENT), Map.empty) \<and>
   loadPdf [''doc.pdf'' \<mapsto> File ''broken''] ''doc'' = Inr ''broken'' \<and> io_load toyCodec ''broken'' = None \<and>
   savePdfWithChanges acceptAll toyCodec (\<lambda>s. NaN) [''doc.pdf'' \<mapsto> File ''broken''] ''doc''
       (onPage1 [None, Some (textNote ''X'')])
     = (Inl UnableToProcess, [''doc.pdf'' \<mapsto> File ''broken'']) \<and>
   savePdfWithChanges acceptAll toyCodec (\<lambda>s. NaN) [''doc.pdf'' \<mapsto> File ''ab''] ''doc''
       (onPage1 [None, Some (textNote ''X'')])
     = (Inr ''doc_filled'', [''doc.pdf'' \<mapsto> File ''ab'', ''doc_filled.pdf'' \<mapsto> File ''abX''])"
proof -
  let ?m = "onPage1 [None, Some (textNote ''X'')]"
  let ?tn = "\<lambda>s::string. NaN"
  have l0: "loadPdf Map.empty ''doc'' = Inl ENOENT"
    by (simp add: loadPdf_def stat_def readFile_def)
  have l1: "loadPdf [''doc.pdf'' \<mapsto> File ''broken''] ''doc'' = Inr ''broken''"
    by (simp add: loadPdf_def stat_def readFile_def)
  have l2: "loadPdf [''doc.pdf'' \<mapsto> File ''ab''] ''doc'' = Inr ''ab''"
    by (simp add: loadPdf_def stat_def readFile_def)
  have c1: "io_load toyCodec ''broken'' = None"
    and c2: "io_load toyCodec ''ab'' = Some [blankPage\<lparr>pg_marks :=
                map (\<lambda>ch. TextMark [ch] (Fin 0) (Fin 0) (Fin 0) black) ''ab''\<rparr>]"
    by (simp_all add: toyCodec_def)
  have sp: "\<not> is_space CHR ''X''" by (simp add: is_space_def code_def)
  have fl: "flattenBytes acceptAll toyCodec ?tn ''ab'' ?m = Inr ''abX''"
    using flatten_example [OF sp, of "''ab''"] by simp
  from savePdfWithChanges_load_failure_is_fatal [where fs = Map.empty and fileId = "''doc''"
      and e = ENOENT and L = acceptAll and C = toyCodec and tn = ?tn and mods = ?m] l0
  have r0: "savePdfWithChanges acceptAll toyCodec ?tn Map.empty ''doc'' ?m = (Inl (FsError ENOENT), Map.empty)"
    by simp
  from savePdfWithChanges_load_failure_is_fatal [where fs = "[''doc.pdf'' \<mapsto> File ''broken'']"
      and fileId = "''doc''" and L = acceptAll and C = toyCodec and tn = ?tn and mods = ?m
      and b = "''broken''"] l1 c1
  have r1: "savePdfWithChanges acceptAll toyCodec ?tn [''doc.pdf'' \<mapsto> File ''broken''] ''doc'' ?m
     = (Inl UnableToProcess, [''doc.pdf'' \<mapsto> File ''broken''])"
    by simp
  from savePdfWithChanges_load_failure_is_fatal [where fs = "[''doc.pdf'' \<mapsto> File ''ab'']"
      and fileId = "''doc''" and L = acceptAll and C = toyCodec and tn = ?tn and mods = ?m
      and b = "''ab''" and out = "''abX''" and pdfDoc =
      "[blankPage\<lparr>pg_marks := map (\<lambda>ch. TextMark [ch] (Fin 0) (Fin 0) (Fin 0) black) ''ab''\<rparr>]"]
    l2 c2 pageKey_example [of None "[Some (textNote ''X'')]"]
  obtain d where d: "pagesLoop acceptAll ?tn (m_pages ?m) (Object_keys (m_pages ?m))
        [blankPage\<lparr>pg_marks := map (\<lambda>ch. TextMark [ch] (Fin 0) (Fin 0) (Fin 0) black) ''ab''\<rparr>] = Inr d"
    and imp: "io_save toyCodec d = Some ''abX'' \<Longrightarrow>
       savePdfWithChanges acceptAll toyCodec ?tn [''doc.pdf'' \<mapsto> File ''ab''] ''doc'' ?m
         = (Inr ''doc_filled'', [''doc.pdf'' \<mapsto> File ''ab'', ''doc_filled.pdf'' \<mapsto> File ''abX''])"
    by auto
  have "io_save toyCodec d = Some ''abX''"
    using fl d c2 by (simp add: flattenBytes_def toyCodec_def split: option.splits)
  from imp [OF this] r0 r1 l0 l1 c1 show ?thesis by simp
qed

theorem loadPdf_prefers_filled_witness:
  "loadPdf [''doc.pdf'' \<mapsto> File ''ab'', ''doc_filled.pdf'' \<mapsto> File ''abX''] ''doc'' = Inr ''abX'' \<and>
   loadPdf [''doc.pdf'' \<mapsto> File ''ab''] ''doc'' = Inr ''ab'' \<and>
   savePdfWithChanges acceptAll toyCodec (\<lambda>s. NaN) [''doc.pdf'' \<mapsto> File ''ab''] ''doc''
       (onPage1 [None, Some (textNote ''X'')])
     = (Inr ''doc_filled'', [''doc.pdf'' \<mapsto> File ''ab'', ''doc_filled.pdf'' \<mapsto> File ''abX'']) \<and>
   savePdfWithChanges acceptAll toyCodec (\<lambda>s. NaN)
       [''doc.pdf'' \<mapsto> File ''ab'', ''doc_filled.pdf'' \<mapsto> File ''abX''] ''doc''
       (onPage1 [None, Some (textNote ''Y'')])
     = (Inr ''doc_filled'', [''doc.pdf'' \<mapsto> File ''ab'', ''doc_filled.pdf'' \<mapsto> File ''abXY''])"
proof -
  let ?m1 = "onPage1 [None, Some (textNote ''X'')]"
  let ?m2 = "onPage1 [None, Some (textNote ''Y'')]"
  let ?tn = "\<lambda>s::string. NaN"
  let ?fs = "[''doc.pdf'' \<mapsto> File ''ab'']"
  let ?fs1 = "[''doc.pdf'' \<mapsto> File ''ab'', ''doc_filled.pdf'' \<mapsto> File ''abX'']"
  have sp: "\<not> is_space CHR ''X''" "\<not> is_space CHR ''Y''" by (simp_all add: is_space_def code_def)
  have f1: "flattenBytes acceptAll toyCodec ?tn ''ab'' ?m1 = Inr ''abX''"
    using flatten_example [OF sp(1), of "''ab''"] by simp
  have f2: "flattenBytes acceptAll toyCodec ?tn ''abX'' ?m2 = Inr ''abXY''"
    using flatten_example [OF sp(2), of "''abX''"] by simp
  have l: "loadPdf ?fs ''doc'' = Inr ''ab''"
    by (simp add: loadPdf_def stat_def readFile_def)
  have s1: "savePdfWithChanges acceptAll toyCodec ?tn ?fs ''doc'' ?m1 = (Inr ''doc_filled'', ?fs1)"
    by (simp add: save_flatten l f1 writeFile_def)
  have nofilled: "?fs (''doc'' @ ''_filled.pdf'') = None" by simp
  have filled: "?fs1 (''doc'' @ ''_filled.pdf'') = Some (File ''abX'')" by simp
  from loadPdf_prefers_filled [where fs = ?fs1 and fileId = "''doc''" and b = "''abX''"] filled
  have a: "loadPdf ?fs1 ''doc'' = Inr ''abX''" by blast
  from loadPdf_prefers_filled [where fs = ?fs and fileId = "''doc''" and L = acceptAll
      and C = toyCodec and tn = ?tn and ?mods1.0 = ?m1 and r = "''doc_filled''" and ?fs1.0 = ?fs1
      and L' = acceptAll and C' = toyCodec and tn' = ?tn and ?mods2.0 = ?m2]
    nofilled s1
  obtain b0 out1 where o: "loadPdf ?fs ''doc'' = Inr b0" "flattenBytes acceptAll toyCodec ?tn b0 ?m1 = Inr out1"
     "savePdfWithChanges acceptAll toyCodec ?tn ?fs1 ''doc'' ?m2 =
            (case flattenBytes acceptAll toyCodec ?tn out1 ?m2 of
               Inl e \<Rightarrow> (Inl e, ?fs1)
             | Inr out2 \<Rightarrow> (Inr (''doc'' @ ''_filled''), ?fs1(''doc'' @ ''_filled.pdf'' \<mapsto> File out2)))"
    by blast
  have "b0 = ''ab''" using o(1) l by simp
  then have "out1 = ''abX''" using o(2) f1 by simp
  then have "savePdfWithChanges acceptAll toyCodec ?tn ?fs1 ''doc'' ?m2
     = (Inr ''doc_filled'', [''doc.pdf'' \<mapsto> File ''ab'', ''doc_filled.pdf'' \<mapsto> File ''abXY''])"
    using o(3) f2 by simp
  with a l s1 show ?thesis by simp
qed

end
